theory Spec2Isabelle
  imports Main "HOL-Library.Multiset" "HOL-Library.Char_ord" "HOL-Library.List_Lexorder"
    "HOL-Library.Product_Lexorder" "HOL-Library.Option_ord"
begin

section \<open>Data model\<close>

text \<open>
  The website override of the view model (\<^verbatim>\<open>addons/website/models/ir_ui_view.py\<close>) sits on
  top of the record store. A template row carries the fields the override reads and writes;
  ids are database serials. The field declarations of \<^verbatim>\<open>key\<close>, \<^verbatim>\<open>active\<close>, \<^verbatim>\<open>priority\<close>,
  \<^verbatim>\<open>inherit_id\<close> and \<^verbatim>\<open>arch\<close> belong to the base model; the specification's data model
  gives their types: a key is an optional string (an unset character field reads as
  \<^verbatim>\<open>False\<close>, here \<open>None\<close>; the empty string is a key, and is falsy too), the scopes and the
  parent are optional references.

  Python exceptions are values of \<open>error\<close>: \<open>IndexError\<close> for \<^verbatim>\<open>[0]\<close> on an empty list,
  \<open>ExpectedSingleton\<close> for a field read on a recordset that is not one record,
  \<open>MissingError\<close> for a read of a record that has no row, \<open>ValueError\<close> for the
  not-found error of \<^verbatim>\<open>get_view_id\<close>, \<open>TypeError\<close> for an order comparison of
  \<^verbatim>\<open>False\<close> with a string, and \<open>RecursionError\<close> when nested \<^verbatim>\<open>write\<close> calls exceed the
  interpreter's recursion limit.
\<close>

datatype error = IndexError | ExpectedSingleton | MissingError | ValueError | TypeError | RecursionError

record view =
  id_v :: int
  key :: "string option"
  name :: string
  arch :: string
  website_id :: "int option"
  theme_id :: "int option"
  active :: bool
  priority :: int
  inherit_id :: "int option"

record page =
  id_p :: int
  url :: string
  view_id :: "int option"

record menu =
  id_m :: int
  label :: string
  page_id :: "int option"

record website =
  id_w :: int
  theme_ids :: "int list"

record module =
  id_mod :: int
  name_mod :: string

record model_data =
  xml_module :: string
  xml_name :: string
  xml_model :: string
  res_id :: int

record db =
  views :: "view list"
  next_view_id :: int
  pages :: "page list"
  next_page_id :: int
  menus :: "menu list"
  next_menu_id :: int
  websites :: "website list"
  modules :: "module list"
  ir_model_data :: "model_data list"

text \<open>The context of a call: \<^verbatim>\<open>website_id\<close> may be absent (\<open>None\<close>), present and
  \<^verbatim>\<open>None\<close> (\<open>Some None\<close>) or an integer (Python's \<^verbatim>\<open>False\<close> is the integer 0);
  \<^verbatim>\<open>no_cow\<close> and \<^verbatim>\<open>active_test\<close> are read for their truth value (\<^verbatim>\<open>active_test\<close>
  defaults to true); \<^verbatim>\<open>install_mode_data\<close> is absent, or a dictionary with or without a
  \<^verbatim>\<open>module\<close> entry.\<close>

record ctxt =
  ctx_website_id :: "int option option"
  no_cow :: bool
  active_test :: bool
  install_mode_data :: "string option option"

text \<open>The dictionary of a \<^verbatim>\<open>write\<close> or of the defaults of a \<^verbatim>\<open>copy\<close>: a field is
  absent (\<open>None\<close>) or given a new value.\<close>

record vals =
  v_key :: "string option option"
  v_name :: "string option"
  v_arch :: "string option"
  v_website_id :: "int option option"
  v_theme_id :: "int option option"
  v_active :: "bool option"
  v_priority :: "int option"
  v_inherit_id :: "int option option"

definition no_vals :: vals where
  "no_vals = \<lparr>v_key = None, v_name = None, v_arch = None, v_website_id = None,
     v_theme_id = None, v_active = None, v_priority = None, v_inherit_id = None\<rparr>"

text \<open>Python truth of a context value or of an id: \<^verbatim>\<open>None\<close>, \<^verbatim>\<open>False\<close> and 0 are falsy.\<close>

definition truthy :: "int option \<Rightarrow> bool" where
  "truthy x = (case x of None \<Rightarrow> False | Some i \<Rightarrow> i \<noteq> 0)"

definition context_get_website_id :: "ctxt \<Rightarrow> int option" where
  "context_get_website_id ctx = (case ctx_website_id ctx of None \<Rightarrow> None | Some w \<Rightarrow> w)"

section \<open>Domains and search\<close>

text \<open>Modelled from the spec: search domains and their combinators are the storage engine's
  (\<^verbatim>\<open>odoo.osv.expression\<close>, not among the sources); section 6 of the specification names
  \<^verbatim>\<open>search\<close> and the domain-expression AND/OR combinators. A leaf is a triple of a field
  name, an operator and a value; a domain is a list of terms read as their conjunction.\<close>

datatype val = VFalse | VTrue | VInt int | VStr string | VList "val list"

datatype cmp = Eq | Neq | In

type_synonym leaf = "string \<times> cmp \<times> val"

datatype dom = Leaf leaf | AND "dom list" | OR "dom list"

type_synonym "domain" = "dom list"

definition cmp_str :: "cmp \<Rightarrow> string" where
  "cmp_str c = (case c of Eq \<Rightarrow> ''='' | Neq \<Rightarrow> ''!='' | In \<Rightarrow> ''in'')"

definition leaf_contains :: "string \<Rightarrow> leaf \<Rightarrow> bool" where
  "leaf_contains s l = (case l of (f, c, x) \<Rightarrow> s = f \<or> s = cmp_str c \<or> VStr s = x)"

definition m2o :: "int option \<Rightarrow> val" where
  "m2o x = (case x of None \<Rightarrow> VFalse | Some i \<Rightarrow> VInt i)"

definition char_val :: "string option \<Rightarrow> val" where
  "char_val x = (case x of None \<Rightarrow> VFalse | Some s \<Rightarrow> VStr s)"

definition field_value :: "view \<Rightarrow> string \<Rightarrow> val" where
  "field_value v f =
     (if f = ''id'' then VInt (id_v v)
      else if f = ''key'' then char_val (key v)
      else if f = ''name'' then VStr (name v)
      else if f = ''arch'' then VStr (arch v)
      else if f = ''website_id'' then m2o (website_id v)
      else if f = ''theme_id'' then m2o (theme_id v)
      else if f = ''active'' then (if active v then VTrue else VFalse)
      else if f = ''priority'' then VInt (priority v)
      else if f = ''inherit_id'' then m2o (inherit_id v)
      else VFalse)"

definition leaf_holds :: "view \<Rightarrow> leaf \<Rightarrow> bool" where
  "leaf_holds v l =
     (case l of (f, c, x) \<Rightarrow>
        (case c of
           Eq \<Rightarrow> field_value v f = x
         | Neq \<Rightarrow> field_value v f \<noteq> x
         | In \<Rightarrow> (case x of VList xs \<Rightarrow> field_value v f \<in> set xs | _ \<Rightarrow> False)))"

fun holds :: "view \<Rightarrow> dom \<Rightarrow> bool" where
  "holds v (Leaf l) = leaf_holds v l"
| "holds v (AND ds) = list_all (holds v) ds"
| "holds v (OR ds) = list_ex (holds v) ds"

definition expression_AND :: "domain list \<Rightarrow> domain" where
  "expression_AND ds = [AND (map AND ds)]"

definition expression_OR :: "domain list \<Rightarrow> domain" where
  "expression_OR ds = [OR (map AND ds)]"

text \<open>Modelled from the spec: \<^verbatim>\<open>search\<close> returns the rows that satisfy the domain, without the
  inactive ones unless active-filtering is disabled in the context (section 3: inactive
  records are excluded from normal resolution), in the requested order. Ordering by
  \<^verbatim>\<open>website_id\<close> places website-specific rows before generic ones (section 4.1); the
  default order is the tie-break ordering of the data model, priority then id. Rows that
  compare equal keep their table order.\<close>

datatype order = ByWebsite | ByDefault

definition website_order_key :: "view \<Rightarrow> bool \<times> int" where
  "website_order_key v = (case website_id v of None \<Rightarrow> (True, 0) | Some w \<Rightarrow> (False, w))"

definition order_by :: "order \<Rightarrow> view list \<Rightarrow> view list" where
  "order_by ord rows =
     (case ord of
        ByWebsite \<Rightarrow> sort_key website_order_key rows
      | ByDefault \<Rightarrow> sort_key (\<lambda>v. (priority v, id_v v)) rows)"

definition search :: "ctxt \<Rightarrow> domain \<Rightarrow> order \<Rightarrow> db \<Rightarrow> view list" where
  "search ctx dmn ord db =
     order_by ord (filter (\<lambda>v. list_all (holds v) dmn \<and> (\<not> active_test ctx \<or> active v)) (views db))"

text \<open>Modelled from the spec: \<^verbatim>\<open>website_domain\<close> of the website model selects the templates
  visible to a website, its own specific rows or generic rows (section 4.1). It is called
  on a website record (\<open>self_id\<close>) or with an explicit id (\<open>wid\<close>).\<close>

definition website_domain :: "int option \<Rightarrow> int option \<Rightarrow> domain" where
  "website_domain self_id wid =
     [Leaf (''website_id'', In, VList [VFalse, m2o (if truthy wid then wid else self_id)])]"

text \<open>Modelled from the spec: \<^verbatim>\<open>browse\<close> of a falsy id is the empty recordset (\<open>None\<close> for
  a website, the empty list of ids for a template), and the themes of a website are read from
  its row.\<close>

definition browse_website :: "int option \<Rightarrow> int option" where
  "browse_website w = (if truthy w then w else None)"

definition browse_id :: "int \<Rightarrow> int list" where
  "browse_id i = (if i = 0 then [] else [i])"

definition website_theme_ids :: "db \<Rightarrow> int option \<Rightarrow> error + int list" where
  "website_theme_ids db current_website =
     (case current_website of
        None \<Rightarrow> Inr []
      | Some w \<Rightarrow> (case find (\<lambda>r. id_w r = w) (websites db) of
                    None \<Rightarrow> Inl MissingError
                  | Some r \<Rightarrow> Inr (theme_ids r)))"

text \<open>Modelled from the spec: reading a field of a template goes to its row; the storage engine
  raises \<open>MissingError\<close> when the row does not exist.\<close>

definition read :: "db \<Rightarrow> int \<Rightarrow> error + view" where
  "read db i = (case find (\<lambda>v. id_v v = i) (views db) of None \<Rightarrow> Inl MissingError | Some v \<Rightarrow> Inr v)"

fun browse :: "db \<Rightarrow> int list \<Rightarrow> error + view list" where
  "browse db [] = Inr []"
| "browse db (i # ids) =
     (case read db i of
        Inl e \<Rightarrow> Inl e
      | Inr v \<Rightarrow> (case browse db ids of Inl e \<Rightarrow> Inl e | Inr vs \<Rightarrow> Inr (v # vs)))"

text \<open>Modelled from the spec: the storage engine's \<^verbatim>\<open>write\<close> (the \<^verbatim>\<open>super\<close> call of the
  override) applies the update directly to every template of the set; \<^verbatim>\<open>copy\<close> duplicates
  the template's attributes under a fresh id, with the given overrides (section 4.3);
  \<^verbatim>\<open>unlink\<close> removes the rows (section 4.4).\<close>

definition apply_vals :: "vals \<Rightarrow> view \<Rightarrow> view" where
  "apply_vals vs v =
     v\<lparr>key := (case v_key vs of None \<Rightarrow> key v | Some x \<Rightarrow> x),
       name := (case v_name vs of None \<Rightarrow> name v | Some x \<Rightarrow> x),
       arch := (case v_arch vs of None \<Rightarrow> arch v | Some x \<Rightarrow> x),
       website_id := (case v_website_id vs of None \<Rightarrow> website_id v | Some x \<Rightarrow> x),
       theme_id := (case v_theme_id vs of None \<Rightarrow> theme_id v | Some x \<Rightarrow> x),
       active := (case v_active vs of None \<Rightarrow> active v | Some x \<Rightarrow> x),
       priority := (case v_priority vs of None \<Rightarrow> priority v | Some x \<Rightarrow> x),
       inherit_id := (case v_inherit_id vs of None \<Rightarrow> inherit_id v | Some x \<Rightarrow> x)\<rparr>"

definition super_write :: "int list \<Rightarrow> vals \<Rightarrow> db \<Rightarrow> db" where
  "super_write self vs db =
     db\<lparr>views := map (\<lambda>v. if id_v v \<in> set self then apply_vals vs v else v) (views db)\<rparr>"

definition copy :: "view \<Rightarrow> vals \<Rightarrow> db \<Rightarrow> int \<times> db" where
  "copy v dflt db =
     (let new_id = next_view_id db
      in (new_id, db\<lparr>views := views db @ [apply_vals dflt (v\<lparr>id_v := new_id\<rparr>)],
                      next_view_id := new_id + 1\<rparr>))"

definition super_unlink :: "int list \<Rightarrow> db \<Rightarrow> db" where
  "super_unlink self db = db\<lparr>views := filter (\<lambda>v. id_v v \<notin> set self) (views db)\<rparr>"

text \<open>Modelled from the spec: pages and menus are external records. Copying a page gives a new
  page that belongs to the given template; a write on a menu entry in a website context is
  itself copy-on-write, so the menu entry of the new page is a newly created record and the
  original entry is not shared (section 3, ownership).\<close>

definition page_copy :: "page \<Rightarrow> int \<Rightarrow> db \<Rightarrow> int \<times> db" where
  "page_copy p new_view db =
     (let new_id = next_page_id db
      in (new_id, db\<lparr>pages := pages db @ [p\<lparr>id_p := new_id, view_id := Some new_view\<rparr>],
                      next_page_id := new_id + 1\<rparr>))"

definition menu_write :: "ctxt \<Rightarrow> menu \<Rightarrow> int \<Rightarrow> db \<Rightarrow> db" where
  "menu_write ctx m new_page db =
     (if \<not> no_cow ctx \<and> truthy (context_get_website_id ctx)
      then db\<lparr>menus := menus db @ [m\<lparr>id_m := next_menu_id db, page_id := Some new_page\<rparr>],
              next_menu_id := next_menu_id db + 1\<rparr>
      else db\<lparr>menus := map (\<lambda>x. if id_m x = id_m m then x\<lparr>page_id := Some new_page\<rparr> else x) (menus db)\<rparr>)"

text \<open>Modelled from the spec: \<^verbatim>\<open>inherit_children_ids\<close> is the derived reverse of
  \<^verbatim>\<open>inherit_id\<close> (section 3, children).\<close>

definition inherit_children_ids :: "db \<Rightarrow> int \<Rightarrow> int list" where
  "inherit_children_ids db i = map id_v (filter (\<lambda>v. inherit_id v = Some i) (views db))"

section \<open>Suitability ranking and duplicate collapsing\<close>

text \<open>
  \<^verbatim>\<open>_sort_suitability_key\<close> and \<^verbatim>\<open>filter_duplicate\<close>. A recordset that is only read is the
  list of its rows. \<^verbatim>\<open>itertools.groupby\<close> groups consecutive elements with equal keys;
  \<^verbatim>\<open>sorted\<close> is stable, as \<open>sort_key\<close> is.

  \<^verbatim>\<open>self.sorted('key')\<close> sorts the records on the value of \<^verbatim>\<open>key\<close>, a string or
  \<^verbatim>\<open>False\<close>. Python orders strings among themselves and \<^verbatim>\<open>False\<close> with itself, and raises
  \<^verbatim>\<open>TypeError\<close> when it has to order \<^verbatim>\<open>False\<close> and a string, which a sort of a recordset
  holding both must do. The grouping compares keys for equality only.
\<close>

definition sorted_on_key :: "view list \<Rightarrow> error + view list" where
  "sorted_on_key self =
     (if list_ex (\<lambda>v. key v = None) self \<and> list_ex (\<lambda>v. key v \<noteq> None) self
      then Inl TypeError
      else Inr (sort_key key self))"

definition sort_suitability_key :: "ctxt \<Rightarrow> view \<Rightarrow> bool \<times> int" where
  "sort_suitability_key ctx self =
     (let context_website_id = (case ctx_website_id ctx of None \<Rightarrow> Some 1 | Some w \<Rightarrow> w);
          website_id = (case website_id self of None \<Rightarrow> 0 | Some w \<Rightarrow> w);
          different_website = (context_website_id \<noteq> Some website_id)
      in (different_website, website_id))"

function groupby :: "('a \<Rightarrow> 'k) \<Rightarrow> 'a list \<Rightarrow> ('k \<times> 'a list) list" where
  "groupby f [] = []"
| "groupby f (x # xs) =
     (f x, x # takeWhile (\<lambda>y. f y = f x) xs) # groupby f (dropWhile (\<lambda>y. f y = f x) xs)"
  by pat_completeness auto
termination
  by (relation "measure (\<lambda>(f, xs). length xs)") (auto simp: length_dropWhile_le less_Suc_eq_le)

definition first :: "'a list \<Rightarrow> error + 'a" where
  "first xs = (case xs of [] \<Rightarrow> Inl IndexError | x # _ \<Rightarrow> Inr x)"

fun collect ::
  "ctxt \<Rightarrow> (string option \<times> view list) list \<Rightarrow> view list \<Rightarrow> error + view list" where
  "collect ctx [] filtered = Inr filtered"
| "collect ctx ((dummy, grp) # rest) filtered =
     (case first (sort_key (sort_suitability_key ctx) grp) of
        Inl e \<Rightarrow> Inl e
      | Inr r \<Rightarrow> collect ctx rest (filtered @ [r]))"

definition filter_duplicate :: "ctxt \<Rightarrow> view list \<Rightarrow> error + view list" where
  "filter_duplicate ctx self =
     (case sorted_on_key self of
        Inl e \<Rightarrow> Inl e
      | Inr by_key \<Rightarrow>
          (case collect ctx (groupby key by_key) [] of
             Inl e \<Rightarrow> Inl e
           | Inr filtered \<Rightarrow> Inr (sort_key (\<lambda>view. (priority view, id_v view)) filtered)))"

text \<open>The most suitable record of a non-empty group, for the statements below.\<close>

definition winner :: "ctxt \<Rightarrow> view list \<Rightarrow> view" where
  "winner ctx g = hd (sort_key (sort_suitability_key ctx) g)"

section \<open>Resolution\<close>

text \<open>
  \<^verbatim>\<open>_view_obj\<close> takes a string key, an integer id or anything else; its result is a
  recordset (the list of its ids) or the argument itself. \<^verbatim>\<open>env.ref\<close>, the external
  reference lookup, is a parameter. An integer is browsed, and the id 0 is falsy.
\<close>

datatype 'a view_arg = ByKey string | ById int | Resolved 'a

datatype 'a view_res = Recordset "int list" | Passed 'a

definition view_obj_domain :: "ctxt \<Rightarrow> string \<Rightarrow> domain \<times> order" where
  "view_obj_domain ctx s =
     (if ctx_website_id ctx \<noteq> None
      then ([Leaf (''key'', Eq, VStr s)] @ website_domain None (context_get_website_id ctx), ByWebsite)
      else ([Leaf (''key'', Eq, VStr s)], ByDefault))"

definition view_obj ::
  "ctxt \<Rightarrow> db \<Rightarrow> (string \<Rightarrow> error + int list) \<Rightarrow> 'a view_arg \<Rightarrow> error + 'a view_res" where
  "view_obj ctx db env_ref arg =
     (case arg of
        ByKey s \<Rightarrow>
          (let (dmn, ord) = view_obj_domain ctx s;
               found = search ctx dmn ord db
           in if found \<noteq> []
              then (case filter_duplicate ctx found of
                      Inl e \<Rightarrow> Inl e
                    | Inr rs \<Rightarrow> Inr (Recordset (map id_v rs)))
              else (case env_ref s of Inl e \<Rightarrow> Inl e | Inr ids \<Rightarrow> Inr (Recordset ids)))
      | ById i \<Rightarrow> Inr (Recordset (browse_id i))
      | Resolved x \<Rightarrow> Inr (Passed x))"

text \<open>\<^verbatim>\<open>_get_inheriting_views_arch_domain\<close> extends the base model's domain, a list of leaves
  that is a parameter here (\<open>base_domain\<close>, the result of the \<^verbatim>\<open>super\<close> call).\<close>

definition get_inheriting_views_arch_website :: "ctxt \<Rightarrow> int option" where
  "get_inheriting_views_arch_website ctx = browse_website (context_get_website_id ctx)"

definition get_inheriting_views_arch_domain :: "ctxt \<Rightarrow> db \<Rightarrow> leaf list \<Rightarrow> error + domain" where
  "get_inheriting_views_arch_domain ctx db base_domain =
     (let current_website = get_inheriting_views_arch_website ctx;
          website_views_domain = website_domain current_website None
      in if current_website \<noteq> None then
           (let dmn = filter (\<lambda>l. \<not> leaf_contains ''active'' l) base_domain
            in case website_theme_ids db current_website of
                 Inl e \<Rightarrow> Inl e
               | Inr themes \<Rightarrow>
                   if themes \<noteq> []
                   then Inr (expression_AND
                          [expression_OR [website_views_domain,
                                          [Leaf (''theme_id'', In, VList (map VInt themes))]],
                           map Leaf dmn])
                   else Inr (expression_AND [website_views_domain, map Leaf dmn]))
         else Inr (expression_AND [website_views_domain, map Leaf base_domain]))"

text \<open>Modelled from the spec: the base \<^verbatim>\<open>get_inheriting_views_arch\<close> returns the ordered list
  of (arch, id) pairs of the templates that satisfy the inheritance domain (section 4.5); it
  asks the overridden \<^verbatim>\<open>_get_inheriting_views_arch_domain\<close> for that domain.\<close>

definition super_get_inheriting_views_arch ::
  "ctxt \<Rightarrow> db \<Rightarrow> leaf list \<Rightarrow> error + (string \<times> int) list" where
  "super_get_inheriting_views_arch ctx db base_domain =
     (case get_inheriting_views_arch_domain ctx db base_domain of
        Inl e \<Rightarrow> Inl e
      | Inr conditions \<Rightarrow> Inr (map (\<lambda>v. (arch v, id_v v)) (search ctx conditions ByDefault db)))"

definition get_inheriting_views_arch ::
  "ctxt \<Rightarrow> db \<Rightarrow> leaf list \<Rightarrow> error + (string \<times> int) list" where
  "get_inheriting_views_arch ctx db base_domain =
     (if \<not> truthy (context_get_website_id ctx)
      then super_get_inheriting_views_arch ctx db base_domain
      else (case super_get_inheriting_views_arch (ctx\<lparr>active_test := False\<rparr>) db base_domain of
              Inl e \<Rightarrow> Inl e
            | Inr inheriting_views \<Rightarrow>
                (case browse db (map snd inheriting_views) of
                   Inl e \<Rightarrow> Inl e
                 | Inr rows \<Rightarrow>
                     (case filter_duplicate ctx rows of
                        Inl e \<Rightarrow> Inl e
                      | Inr fd \<Rightarrow> Inr (map (\<lambda>v. (arch v, id_v v)) (filter active fd))))))"

text \<open>Modelled from the spec: the base \<^verbatim>\<open>get_view_id\<close> returns a numeric id as it is
  (section 4.6); its resolution of a string key outside a website context is the parameter
  \<open>dflt\<close>.\<close>

datatype xml_id = XInt int | XStr string

definition super_get_view_id :: "(string \<Rightarrow> error + int) \<Rightarrow> xml_id \<Rightarrow> error + int" where
  "super_get_view_id dflt x = (case x of XInt i \<Rightarrow> Inr i | XStr s \<Rightarrow> dflt s)"

definition get_view_id_domain :: "int option \<Rightarrow> int list \<Rightarrow> string \<Rightarrow> domain" where
  "get_view_id_domain current_website themes s =
     (let key_domain = [Leaf (''key'', Eq, VStr s)];
          theme_views_domain = [Leaf (''theme_id'', In, VList (map VInt themes))];
          website_views_domain = [Leaf (''theme_id'', Eq, VFalse)] @ website_domain current_website None
      in expression_AND [expression_OR [theme_views_domain, website_views_domain], key_domain])"

definition get_view_id :: "ctxt \<Rightarrow> db \<Rightarrow> (string \<Rightarrow> error + int) \<Rightarrow> xml_id \<Rightarrow> error + int" where
  "get_view_id ctx db dflt x =
     (case x of
        XStr s \<Rightarrow>
          if ctx_website_id ctx \<noteq> None then
            (let current_website = browse_website (context_get_website_id ctx)
             in case website_theme_ids db current_website of
                  Inl e \<Rightarrow> Inl e
                | Inr themes \<Rightarrow>
                    (case take 1 (search ctx (get_view_id_domain current_website themes s) ByWebsite db) of
                       [] \<Rightarrow> Inl ValueError
                     | v # _ \<Rightarrow> Inr (id_v v)))
          else super_get_view_id dflt x
      | XInt i \<Rightarrow> super_get_view_id dflt x)"

section \<open>Copy on write\<close>

fun str_in :: "string \<Rightarrow> string \<Rightarrow> bool" where
  "str_in sub [] = (sub = [])"
| "str_in sub (c # cs) = (take (length sub) (c # cs) = sub \<or> str_in sub cs)"

definition currently_updating :: "ctxt \<Rightarrow> string" where
  "currently_updating ctx =
     (case install_mode_data ctx of
        None \<Rightarrow> ''''
      | Some d \<Rightarrow> (case d of None \<Rightarrow> '''' | Some m \<Rightarrow> m))"

definition get_theme_specific_view :: "ctxt \<Rightarrow> db \<Rightarrow> int \<Rightarrow> string \<Rightarrow> error + (int list \<times> db)" where
  "get_theme_specific_view ctx db self theme_name =
     (let module_being_updated = filter (\<lambda>m. name_mod m = theme_name) (modules db);
          xml_id = filter (\<lambda>x. xml_model x = ''ir.ui.view'' \<and> res_id x = self) (ir_model_data db)
      in case xml_id of
           [] \<Rightarrow> Inr ([self], db)
         | [x] \<Rightarrow>
             if xml_module x \<noteq> theme_name then
               (case read db self of
                  Inl e \<Rightarrow> Inl e
                | Inr view \<Rightarrow>
                    (case module_being_updated of
                       _ # _ # _ \<Rightarrow> Inl ExpectedSingleton
                     | ms \<Rightarrow>
                         (let mid = (case ms of [] \<Rightarrow> None | m # _ \<Rightarrow> Some (id_mod m));
                              theme_specific_view =
                                search ctx [Leaf (''key'', Eq, char_val (key view)),
                                            Leaf (''theme_id'', Eq, m2o mid)] ByDefault db
                          in case theme_specific_view of
                               [] \<Rightarrow> (let (new, db') = copy view (no_vals\<lparr>v_theme_id := Some mid\<rparr>) db
                                       in Inr ([new], db'))
                             | [t] \<Rightarrow> Inr ([id_v t], db)
                             | _ \<Rightarrow> Inl ExpectedSingleton)))
             else Inr ([self], db)
         | _ \<Rightarrow> Inl ExpectedSingleton)"

fun menus_loop :: "ctxt \<Rightarrow> menu list \<Rightarrow> int \<Rightarrow> db \<Rightarrow> db" where
  "menus_loop ctx [] new_page db = db"
| "menus_loop ctx (m # ms) new_page db = menus_loop ctx ms new_page (menu_write ctx m new_page db)"

fun pages_loop :: "ctxt \<Rightarrow> page list \<Rightarrow> int \<Rightarrow> db \<Rightarrow> db" where
  "pages_loop ctx [] new_view db = db"
| "pages_loop ctx (p # ps) new_view db =
     (let (new_page, db1) = page_copy p new_view db;
          menu_ids = filter (\<lambda>m. page_id m = Some (id_p p)) (menus db1)
      in pages_loop ctx ps new_view (menus_loop ctx menu_ids new_page db1))"

definition create_website_specific_pages_for_view :: "ctxt \<Rightarrow> int \<Rightarrow> int \<Rightarrow> int option \<Rightarrow> db \<Rightarrow> db" where
  "create_website_specific_pages_for_view ctx self new_view website db =
     pages_loop ctx (filter (\<lambda>p. view_id p = Some self) (pages db)) new_view db"

fun write_children ::
  "(int list \<Rightarrow> vals \<Rightarrow> db \<Rightarrow> error + db) \<Rightarrow> int list \<Rightarrow> int \<Rightarrow> db \<Rightarrow> error + db" where
  "write_children rec [] new db = Inr db"
| "write_children rec (inherit_child # rest) new db =
     (case rec [inherit_child] (no_vals\<lparr>v_inherit_id := Some (Some new)\<rparr>) db of
        Inl e \<Rightarrow> Inl e
      | Inr db' \<Rightarrow> write_children rec rest new db')"

definition write_view ::
  "(int list \<Rightarrow> vals \<Rightarrow> db \<Rightarrow> error + db) \<Rightarrow> ctxt \<Rightarrow> int option \<Rightarrow> int list \<Rightarrow> vals \<Rightarrow> db
     \<Rightarrow> error + db" where
  "write_view rec ctx current_website_id view vs db =
     (if truthy current_website_id then
        (case view of
           [v] \<Rightarrow>
             (case read db v of
                Inl e \<Rightarrow> Inl e
              | Inr row \<Rightarrow>
                  if website_id row = None then
                    (let (new, db1) = copy row (no_vals\<lparr>v_website_id := Some current_website_id\<rparr>) db;
                         db2 = create_website_specific_pages_for_view ctx v new
                                 (browse_website current_website_id) db1
                     in case write_children rec (inherit_children_ids db2 v) new db2 of
                          Inl e \<Rightarrow> Inl e
                        | Inr db3 \<Rightarrow> rec [new] vs db3)
                  else Inr (super_write [v] vs db))
         | _ \<Rightarrow> Inl ExpectedSingleton)
      else Inr (super_write view vs db))"

fun write_loop ::
  "(int list \<Rightarrow> vals \<Rightarrow> db \<Rightarrow> error + db) \<Rightarrow> ctxt \<Rightarrow> int option \<Rightarrow> int list \<Rightarrow> vals \<Rightarrow> db
     \<Rightarrow> error + db" where
  "write_loop rec ctx current_website_id [] vs db = Inr db"
| "write_loop rec ctx current_website_id (view # rest) vs db =
     (if str_in ''theme_'' (currently_updating ctx) then
        (case get_theme_specific_view ctx db view (currently_updating ctx) of
           Inl e \<Rightarrow> Inl e
         | Inr (view', db1) \<Rightarrow>
             (case write_view rec ctx None view' vs db1 of
                Inl e \<Rightarrow> Inl e
              | Inr db2 \<Rightarrow> write_loop rec ctx None rest vs db2))
      else
        (case write_view rec ctx current_website_id [view] vs db of
           Inl e \<Rightarrow> Inl e
         | Inr db2 \<Rightarrow> write_loop rec ctx current_website_id rest vs db2))"

definition write_body ::
  "(int list \<Rightarrow> vals \<Rightarrow> db \<Rightarrow> error + db) \<Rightarrow> ctxt \<Rightarrow> int list \<Rightarrow> vals \<Rightarrow> db \<Rightarrow> error + db" where
  "write_body rec ctx self vs db =
     (if \<not> no_cow ctx
      then write_loop rec ctx (context_get_website_id ctx) self vs db
      else Inr (super_write self vs db))"

primrec write_cow :: "nat \<Rightarrow> ctxt \<Rightarrow> int list \<Rightarrow> vals \<Rightarrow> db \<Rightarrow> error + db" where
  "write_cow 0 ctx self vs db = Inl RecursionError"
| "write_cow (Suc n) ctx self vs db = write_body (write_cow n ctx) ctx self vs db"

section \<open>Copy on unlink\<close>

text \<open>
  \<^verbatim>\<open>'%s [website %s]' % (view.key, website.id)\<close> needs the decimal digits of an integer;
  an unset key is formatted as \<^verbatim>\<open>False\<close>.
\<close>

function str_nat :: "nat \<Rightarrow> string" where
  "str_nat n = (if n < 10 then [char_of (48 + n)] else str_nat (n div 10) @ [char_of (48 + n mod 10)])"
  by pat_completeness auto
termination
  by (relation "measure id") auto

definition str_int :: "int \<Rightarrow> string" where
  "str_int i = (if i < 0 then CHR ''-'' # str_nat (nat (- i)) else str_nat (nat i))"

definition str_key :: "string option \<Rightarrow> string" where
  "str_key k = (case k of None \<Rightarrow> ''False'' | Some s \<Rightarrow> s)"

definition rename_key :: "string option \<Rightarrow> int \<Rightarrow> string" where
  "rename_key k w = str_key k @ '' [website '' @ str_int w @ '']''"

fun fork_for_websites :: "nat \<Rightarrow> ctxt \<Rightarrow> int \<Rightarrow> int list \<Rightarrow> db \<Rightarrow> error + db" where
  "fork_for_websites n ctx view [] db = Inr db"
| "fork_for_websites n ctx view (w # ws) db =
     (case read db view of
        Inl e \<Rightarrow> Inl e
      | Inr row \<Rightarrow>
          (case write_cow n (ctx\<lparr>ctx_website_id := Some (Some w)\<rparr>) [view]
                  (no_vals\<lparr>v_key := Some (Some (rename_key (key row) w))\<rparr>) db of
             Inl e \<Rightarrow> Inl e
           | Inr db' \<Rightarrow> fork_for_websites n ctx view ws db'))"

fun unlink_loop :: "nat \<Rightarrow> ctxt \<Rightarrow> int \<Rightarrow> int list \<Rightarrow> db \<Rightarrow> error + db" where
  "unlink_loop n ctx current_website_id [] db = Inr db"
| "unlink_loop n ctx current_website_id (view # rest) db =
     (case fork_for_websites n ctx view
             (map id_w (filter (\<lambda>w. id_w w \<noteq> current_website_id) (websites db))) db of
        Inl e \<Rightarrow> Inl e
      | Inr db' \<Rightarrow> unlink_loop n ctx current_website_id rest db')"

definition unlink :: "nat \<Rightarrow> ctxt \<Rightarrow> int list \<Rightarrow> db \<Rightarrow> error + db" where
  "unlink n ctx self db =
     (case (case context_get_website_id ctx of
              Some current_website_id \<Rightarrow>
                if current_website_id \<noteq> 0 \<and> \<not> no_cow ctx then
                  (case browse db self of
                     Inl e \<Rightarrow> Inl e
                   | Inr rows \<Rightarrow>
                       unlink_loop n ctx current_website_id
                         (map id_v (filter (\<lambda>v. website_id v = None) rows)) db)
                else Inr db
            | None \<Rightarrow> Inr db) of
        Inl e \<Rightarrow> Inl e
      | Inr db1 \<Rightarrow>
          (case browse db1 self of
             Inl e \<Rightarrow> Inl e
           | Inr rows \<Rightarrow>
               (let keys = map key (filter (\<lambda>v. key v \<noteq> None \<and> key v \<noteq> Some '''') rows);
                    found = search (ctx\<lparr>active_test := False\<rparr>)
                              [Leaf (''key'', In, VList (map char_val keys))] ByDefault db1;
                    self' = self @ filter (\<lambda>i. i \<notin> set self) (map id_v found)
                in Inr (super_unlink self' db1))))"

section \<open>Invariants of the template table\<close>


text \<open>The template table is well formed: ids are unique and below the id sequence, as are the
  parents the rows refer to.\<close>

definition wf_db :: "db \<Rightarrow> bool" where
  "wf_db db \<longleftrightarrow> distinct (map id_v (views db)) \<and>
     list_all (\<lambda>v. id_v v < next_view_id db
                 \<and> (case inherit_id v of None \<Rightarrow> True | Some p \<Rightarrow> p < next_view_id db)) (views db)"










section \<open>Example data\<close>

definition template :: "int \<Rightarrow> string \<Rightarrow> int option \<Rightarrow> bool \<Rightarrow> int option \<Rightarrow> view" where
  "template i k w a p =
     \<lparr>id_v = i, key = Some k, name = ''Layout'', arch = ''<t/>'', website_id = w, theme_id = None,
      active = a, priority = 16, inherit_id = p\<rparr>"

definition website_ctx :: "int \<Rightarrow> ctxt" where
  "website_ctx w =
     \<lparr>ctx_website_id = Some (Some w), no_cow = False, active_test = True, install_mode_data = None\<rparr>"

definition plain_ctx :: ctxt where
  "plain_ctx = \<lparr>ctx_website_id = None, no_cow = False, active_test = True, install_mode_data = None\<rparr>"

definition theme_ctx :: "int \<Rightarrow> ctxt" where
  "theme_ctx w =
     \<lparr>ctx_website_id = Some (Some w), no_cow = False, active_test = True,
      install_mode_data = Some (Some ''theme_blue'')\<rparr>"

definition store :: "view list \<Rightarrow> int \<Rightarrow> db" where
  "store vs n =
     \<lparr>views = vs, next_view_id = n, pages = [], next_page_id = 1, menus = [], next_menu_id = 1,
      websites = [\<lparr>id_w = 1, theme_ids = []\<rparr>, \<lparr>id_w = 2, theme_ids = []\<rparr>],
      modules = [\<lparr>id_mod = 7, name_mod = ''theme_blue''\<rparr>], ir_model_data = []\<rparr>"

definition layouts :: db where
  "layouts = store [template 1 ''website.layout'' None True None,
                    template 2 ''website.layout'' (Some 1) True None,
                    template 3 ''website.layout'' (Some 2) True None] 4"

definition patches :: db where
  "patches = store [template 1 ''website.layout'' None True None,
                    template 2 ''website.footer'' None True (Some 1),
                    template 3 ''website.footer'' (Some 1) False (Some 1)] 4"


definition themed :: db where
  "themed = (store [template 1 ''website.layout'' None True None] 2)
     \<lparr>ir_model_data := [\<lparr>xml_module = ''website'', xml_name = ''layout'',
                          xml_model = ''ir.ui.view'', res_id = 1\<rparr>]\<rparr>"

definition solo :: db where
  "solo = store [template 1 ''website.layout'' None True None] 2"

definition shared :: db where
  "shared = (store [template 1 ''website.layout'' None True None,
                    template 2 ''website.footer'' (Some 2) True (Some 1)] 3)
     \<lparr>pages := [\<lparr>id_p = 1, url = ''/home'', view_id = Some 1\<rparr>], next_page_id := 2,
      menus := [\<lparr>id_m = 1, label = ''Home'', page_id = Some 1\<rparr>], next_menu_id := 2\<rparr>"

section \<open>Properties of the duplicate collapse\<close>

lemma groupby_groups:
  "(k, g) \<in> set (groupby f xs) \<Longrightarrow> g \<noteq> [] \<and> set g \<subseteq> set xs \<and> (\<forall>y\<in>set g. f y = k)"
proof (induction f xs rule: groupby.induct)
  case (1 f)
  then show ?case by simp
next
  case (2 f x xs)
  from "2.prems" consider "k = f x \<and> g = x # takeWhile (\<lambda>y. f y = f x) xs"
    | "(k, g) \<in> set (groupby f (dropWhile (\<lambda>y. f y = f x) xs))" by auto
  then show ?case
  proof cases
    case 1
    then show ?thesis by (auto dest: set_takeWhileD)
  next
    case 2
    with "2.IH" have "g \<noteq> [] \<and> set g \<subseteq> set (dropWhile (\<lambda>y. f y = f x) xs) \<and> (\<forall>y\<in>set g. f y = k)" by blast
    then show ?thesis using set_dropWhileD by fastforce
  qed
qed

lemma sorted_takeWhile_eq_filter:
  fixes f :: "'a \<Rightarrow> 'k::linorder"
  assumes "sorted (map f xs)" "\<forall>y\<in>set xs. a \<le> f y"
  shows "takeWhile (\<lambda>y. f y = a) xs = filter (\<lambda>y. f y = a) xs"
  using assms
proof (induction xs)
  case Nil
  then show ?case by simp
next
  case (Cons x xs)
  show ?case
  proof (cases "f x = a")
    case True
    with Cons show ?thesis by simp
  next
    case False
    with Cons.prems have "a < f x" by auto
    with Cons.prems have "\<forall>y\<in>set xs. f y \<noteq> a" by fastforce
    with False show ?thesis by (simp add: filter_empty_conv)
  qed
qed

lemma sorted_dropWhile_eq_filter:
  fixes f :: "'a \<Rightarrow> 'k::linorder"
  assumes "sorted (map f xs)" "\<forall>y\<in>set xs. a \<le> f y"
  shows "dropWhile (\<lambda>y. f y = a) xs = filter (\<lambda>y. f y \<noteq> a) xs"
  using assms
proof (induction xs)
  case Nil
  then show ?case by simp
next
  case (Cons x xs)
  show ?case
  proof (cases "f x = a")
    case True
    with Cons show ?thesis by simp
  next
    case False
    with Cons.prems have "a < f x" by auto
    with Cons.prems have "\<forall>y\<in>set xs. f y \<noteq> a" by fastforce
    then have "filter (\<lambda>y. f y \<noteq> a) xs = xs" by (simp add: filter_id_conv)
    with False show ?thesis by simp
  qed
qed

lemma groupby_sorted:
  fixes f :: "'a \<Rightarrow> 'k::linorder"
  assumes "sorted (map f xs)"
  shows "distinct (map fst (groupby f xs)) \<and> fst ` set (groupby f xs) = f ` set xs
         \<and> (\<forall>(k, g)\<in>set (groupby f xs). g = filter (\<lambda>y. f y = k) xs)"
  using assms
proof (induction f xs rule: groupby.induct)
  case (1 f)
  then show ?case by simp
next
  case (2 f x xs)
  let ?d = "dropWhile (\<lambda>y. f y = f x) xs"
  from "2.prems" have sx: "sorted (map f xs)" and lb: "\<forall>y\<in>set xs. f x \<le> f y" by auto
  have tw: "takeWhile (\<lambda>y. f y = f x) xs = filter (\<lambda>y. f y = f x) xs"
    using sorted_takeWhile_eq_filter[OF sx lb] .
  have dw: "?d = filter (\<lambda>y. f y \<noteq> f x) xs"
    using sorted_dropWhile_eq_filter[OF sx lb] .
  have sd: "sorted (map f ?d)" unfolding dw using sx by (simp add: sorted_filter)
  note IH = "2.IH"[OF sd]
  have keys: "fst ` set (groupby f ?d) = f ` set ?d" using IH by blast
  have "f x \<notin> f ` set ?d" by (subst dw) auto
  then have notin: "f x \<notin> fst ` set (groupby f ?d)" using keys by simp
  have d1: "distinct (map fst (groupby f (x # xs)))" using IH notin by simp
  have "f ` set (x # xs) = insert (f x) (f ` set ?d)" by (subst dw) auto
  then have d2: "fst ` set (groupby f (x # xs)) = f ` set (x # xs)"
    using keys by simp
  have d3: "\<forall>(k, g)\<in>set (groupby f (x # xs)). g = filter (\<lambda>y. f y = k) (x # xs)"
  proof (clarify)
    fix k g assume kg: "(k, g) \<in> set (groupby f (x # xs))"
    then consider "k = f x \<and> g = x # takeWhile (\<lambda>y. f y = f x) xs"
      | "(k, g) \<in> set (groupby f ?d)" by auto
    then show "g = filter (\<lambda>y. f y = k) (x # xs)"
    proof cases
      case 1
      then show ?thesis using tw by simp
    next
      case 2
      then have kne: "k \<noteq> f x" using notin by force
      from 2 IH have "g = filter (\<lambda>y. f y = k) ?d" by blast
      also have "\<dots> = filter (\<lambda>y. f y = k) xs" unfolding dw using kne by (auto intro: filter_cong)
      finally show ?thesis using kne by simp
    qed
  qed
  from d1 d2 d3 show ?case by blast
qed

lemma collect_winners:
  "\<forall>(k, g)\<in>set gs. g \<noteq> [] \<Longrightarrow> collect ctx gs acc = Inr (acc @ map (\<lambda>(k, g). winner ctx g) gs)"
proof (induction gs arbitrary: acc)
  case Nil
  then show ?case by simp
next
  case (Cons a gs)
  obtain k g where a: "a = (k, g)" by (cases a)
  with Cons.prems have "g \<noteq> []" by simp
  then have "sort_key (sort_suitability_key ctx) g \<noteq> []" by (metis length_0_conv length_sort)
  then have "first (sort_key (sort_suitability_key ctx) g) = Inr (winner ctx g)"
    by (cases "sort_key (sort_suitability_key ctx) g") (simp_all add: first_def winner_def)
  with Cons a show ?case by simp
qed

lemma hd_sort_key_min:
  fixes f :: "'a \<Rightarrow> 'k::linorder"
  assumes "g \<noteq> []"
  shows "hd (sort_key f g) \<in> set g \<and> (\<forall>y\<in>set g. f (hd (sort_key f g)) \<le> f y)"
proof -
  obtain z zs where z: "sort_key f g = z # zs"
    using assms by (cases "sort_key f g") (auto dest: arg_cong[where f = length])
  have "set (z # zs) = set g" using z by (metis set_sort)
  moreover have "sorted (map f (z # zs))" using z by (metis sorted_sort_key)
  ultimately show ?thesis using z by auto
qed

lemma char_val_eq [simp]: "char_val a = char_val b \<longleftrightarrow> a = b"
  by (cases a; cases b) (simp_all add: char_val_def)

lemma char_val_str [simp]: "char_val a = VStr s \<longleftrightarrow> a = Some s"
  by (cases a) (simp_all add: char_val_def)

lemma sorted_on_key_uniform:
  assumes "(\<forall>v\<in>set xs. key v = None) \<or> (\<forall>v\<in>set xs. key v \<noteq> None)"
  shows "sorted_on_key xs = Inr (sort_key key xs)"
  using assms by (auto simp: sorted_on_key_def list_ex_iff)

lemma sorted_on_key_mixed:
  assumes "a \<in> set xs" "key a = None" "b \<in> set xs" "key b \<noteq> None"
  shows "sorted_on_key xs = Inl TypeError"
  using assms by (auto simp: sorted_on_key_def list_ex_iff)

lemma filter_duplicate_eq:
  assumes "(\<forall>v\<in>set xs. key v = None) \<or> (\<forall>v\<in>set xs. key v \<noteq> None)"
  shows "filter_duplicate ctx xs =
     Inr (sort_key (\<lambda>view. (priority view, id_v view))
            (map (\<lambda>(k, g). winner ctx g) (groupby key (sort_key key xs))))"
proof -
  have "\<forall>(k, g)\<in>set (groupby key (sort_key key xs)). g \<noteq> []"
    using groupby_groups by fastforce
  from collect_winners[OF this, of ctx "[]"] show ?thesis
    by (simp add: filter_duplicate_def sorted_on_key_uniform[OF assms])
qed

lemma filter_duplicate_mixed:
  assumes "a \<in> set xs" "key a = None" "b \<in> set xs" "key b \<noteq> None"
  shows "filter_duplicate ctx xs = Inl TypeError"
  by (simp add: filter_duplicate_def sorted_on_key_mixed[OF assms])

lemma winners_props:
  fixes xs :: "view list" and ctx :: ctxt
  defines "W \<equiv> map (\<lambda>(k, g). winner ctx g) (groupby key (sort_key key xs))"
  shows "set W \<subseteq> set xs" and "key ` set W = key ` set xs" and "distinct (map key W)"
    and "\<forall>r\<in>set W. \<forall>y\<in>set xs. key y = key r \<longrightarrow>
           sort_suitability_key ctx r \<le> sort_suitability_key ctx y"
proof -
  let ?s = "sort_key key xs"
  let ?gs = "groupby key ?s"
  have srt: "sorted (map key ?s)" by (rule sorted_sort_key)
  have sets: "set ?s = set xs" by simp
  from groupby_sorted[OF srt]
  have dist: "distinct (map fst ?gs)" and keys: "fst ` set ?gs = key ` set xs"
    and flt: "\<forall>(k, g)\<in>set ?gs. g = filter (\<lambda>y. key y = k) ?s"
    using sets by auto
  have win: "winner ctx g \<in> set g \<and> key (winner ctx g) = k
      \<and> (\<forall>y\<in>set g. sort_suitability_key ctx (winner ctx g) \<le> sort_suitability_key ctx y)"
    if "(k, g) \<in> set ?gs" for k g
  proof -
    from groupby_groups[OF that] have ne: "g \<noteq> []" and all: "\<forall>y\<in>set g. key y = k" by auto
    from hd_sort_key_min[OF ne, of "sort_suitability_key ctx"] all show ?thesis
      by (simp add: winner_def)
  qed
  have mk: "map key W = map fst ?gs"
    unfolding W_def using win by (auto simp: map_eq_conv)
  show "distinct (map key W)" using mk dist by simp
  show "key ` set W = key ` set xs" using mk keys by (metis list.set_map)
  show "set W \<subseteq> set xs"
  proof
    fix r assume "r \<in> set W"
    then obtain k g where kg: "(k, g) \<in> set ?gs" and r: "r = winner ctx g"
      unfolding W_def by auto
    from win[OF kg] groupby_groups[OF kg] sets r show "r \<in> set xs" by auto
  qed
  show "\<forall>r\<in>set W. \<forall>y\<in>set xs. key y = key r \<longrightarrow>
           sort_suitability_key ctx r \<le> sort_suitability_key ctx y"
  proof (intro ballI impI)
    fix r y assume "r \<in> set W" and y: "y \<in> set xs" and ky: "key y = key r"
    then obtain k g where kg: "(k, g) \<in> set ?gs" and r: "r = winner ctx g"
      unfolding W_def by auto
    from flt kg have g: "g = filter (\<lambda>y. key y = k) ?s" by blast
    from win[OF kg] r ky have "key y = k" by simp
    with y g have "y \<in> set g" by simp
    with win[OF kg] r show "sort_suitability_key ctx r \<le> sort_suitability_key ctx y" by simp
  qed
qed

lemma suit_match:
  assumes "ctx_website_id ctx = Some (Some w)" "website_id y = Some w"
    "sort_suitability_key ctx r \<le> sort_suitability_key ctx y" "w \<noteq> 0"
  shows "website_id r = Some w"
  using assms by (auto simp: sort_suitability_key_def Let_def less_eq_prod_def split: option.splits)

lemma suit_generic:
  assumes "ctx_website_id ctx = Some (Some w)" "website_id y = None"
    "sort_suitability_key ctx r \<le> sort_suitability_key ctx y" "w \<noteq> 0"
    "website_id r \<noteq> Some w" "\<forall>i. website_id r = Some i \<longrightarrow> 0 < i"
  shows "website_id r = None"
  using assms by (auto simp: sort_suitability_key_def Let_def less_eq_prod_def split: option.splits)

text \<open>
  On a recordset whose templates all have a key, or all have none, \<^verbatim>\<open>filter_duplicate\<close>
  returns exactly one record per distinct key of the recordset: the keys of the result are
  pairwise distinct and are the keys of the input. Each survivor has the least suitability key
  among the records of its key, so it is the record scoped to the context's current website
  when there is one, otherwise a generic record ahead of the records of other websites (ids of
  websites are positive). The result is ordered by (priority, id) ascending.
\<close>

lemma filter_duplicate_uniform:
  assumes uni: "(\<forall>v\<in>set xs. key v = None) \<or> (\<forall>v\<in>set xs. key v \<noteq> None)"
  shows "\<exists>ys. filter_duplicate ctx xs = Inr ys
     \<and> set ys \<subseteq> set xs
     \<and> key ` set ys = key ` set xs
     \<and> distinct (map key ys)
     \<and> sorted (map (\<lambda>view. (priority view, id_v view)) ys)
     \<and> (\<forall>r\<in>set ys. \<forall>y\<in>set xs. key y = key r \<longrightarrow>
           sort_suitability_key ctx r \<le> sort_suitability_key ctx y)
     \<and> (\<forall>w. ctx_website_id ctx = Some (Some w) \<and> w \<noteq> 0
             \<and> (\<forall>x\<in>set xs. \<forall>i. website_id x = Some i \<longrightarrow> 0 < i) \<longrightarrow>
           (\<forall>r\<in>set ys.
              ((\<exists>y\<in>set xs. key y = key r \<and> website_id y = Some w) \<longrightarrow> website_id r = Some w)
            \<and> ((\<forall>y\<in>set xs. key y = key r \<longrightarrow> website_id y \<noteq> Some w)
                 \<and> (\<exists>y\<in>set xs. key y = key r \<and> website_id y = None) \<longrightarrow> website_id r = None)))"
proof -
  define W where "W = map (\<lambda>(k, g). winner ctx g) (groupby key (sort_key key xs))"
  define ys where "ys = sort_key (\<lambda>view. (priority view, id_v view)) W"
  have eq: "filter_duplicate ctx xs = Inr ys"
    by (simp add: filter_duplicate_eq[OF uni] ys_def W_def)
  have sW: "set ys = set W" by (simp add: ys_def)
  note wp = winners_props[of ctx xs, folded W_def]
  have sub: "set ys \<subseteq> set xs" using wp(1) sW by simp
  have keys: "key ` set ys = key ` set xs" using wp(2) sW by simp
  have "mset ys = mset W" by (simp add: ys_def)
  then have "mset (map key ys) = mset (map key W)" by (metis mset_map)
  then have dist: "distinct (map key ys)" using wp(3) by (metis mset_eq_imp_distinct_iff)
  have srt: "sorted (map (\<lambda>view. (priority view, id_v view)) ys)"
    unfolding ys_def by (rule sorted_sort_key)
  have mn: "\<forall>r\<in>set ys. \<forall>y\<in>set xs. key y = key r \<longrightarrow>
           sort_suitability_key ctx r \<le> sort_suitability_key ctx y"
    using wp(4) sW by simp
  have web: "\<forall>w. ctx_website_id ctx = Some (Some w) \<and> w \<noteq> 0
             \<and> (\<forall>x\<in>set xs. \<forall>i. website_id x = Some i \<longrightarrow> 0 < i) \<longrightarrow>
           (\<forall>r\<in>set ys.
              ((\<exists>y\<in>set xs. key y = key r \<and> website_id y = Some w) \<longrightarrow> website_id r = Some w)
            \<and> ((\<forall>y\<in>set xs. key y = key r \<longrightarrow> website_id y \<noteq> Some w)
                 \<and> (\<exists>y\<in>set xs. key y = key r \<and> website_id y = None) \<longrightarrow> website_id r = None))"
  proof (intro allI impI ballI conjI)
    fix w r
    assume h: "ctx_website_id ctx = Some (Some w) \<and> w \<noteq> 0
             \<and> (\<forall>x\<in>set xs. \<forall>i. website_id x = Some i \<longrightarrow> 0 < i)" and r: "r \<in> set ys"
    {
      assume "\<exists>y\<in>set xs. key y = key r \<and> website_id y = Some w"
      then obtain y where "y \<in> set xs" "key y = key r" "website_id y = Some w" by blast
      with mn r h show "website_id r = Some w" using suit_match by blast
    }
    {
      assume a: "(\<forall>y\<in>set xs. key y = key r \<longrightarrow> website_id y \<noteq> Some w)
                 \<and> (\<exists>y\<in>set xs. key y = key r \<and> website_id y = None)"
      then obtain y where y: "y \<in> set xs" "key y = key r" "website_id y = None" by blast
      from r sub have rx: "r \<in> set xs" by blast
      with a have nw: "website_id r \<noteq> Some w" by blast
      from rx h have pos: "\<forall>i. website_id r = Some i \<longrightarrow> 0 < i" by blast
      from mn r y have "sort_suitability_key ctx r \<le> sort_suitability_key ctx y" by blast
      from suit_generic[OF _ y(3) this _ nw pos] h show "website_id r = None" by blast
    }
  qed
  from eq sub keys dist srt mn web show ?thesis by blast
qed

text \<open>
  Claim C3 fails on the code for a recordset that holds a template without a key and a
  template with one: \<^verbatim>\<open>self.sorted('key')\<close> has to order \<^verbatim>\<open>False\<close> and a string, and
  \<^verbatim>\<open>filter_duplicate\<close> raises \<^verbatim>\<open>TypeError\<close> instead of returning one record per key.
\<close>

theorem filter_duplicate_mixed_keys:
  "filter_duplicate (website_ctx 1)
     [(template 10 ''website.layout'' None True None)\<lparr>key := None\<rparr>,
      template 11 ''website.footer'' (Some 1) True None] = Inl TypeError"
  by (simp add: filter_duplicate_def sorted_on_key_def template_def)

text \<open>
  Claim C9. Without a \<^verbatim>\<open>website_id\<close> entry in the context the suitability key takes
  website 1 as the current website: of two templates with the same key, one scoped to
  website 1 and one generic, \<^verbatim>\<open>filter_duplicate\<close> keeps the website-1 record, in whichever
  order the two are given.
\<close>

theorem filter_duplicate_default_website:
  assumes "ctx_website_id ctx = None" "key a = key b" "website_id a = Some 1" "website_id b = None"
  shows "filter_duplicate ctx [a, b] = Inr [a] \<and> filter_duplicate ctx [b, a] = Inr [a]"
  using assms
  by (cases "key b")
     (simp_all add: filter_duplicate_def sorted_on_key_def sort_suitability_key_def first_def
        less_eq_prod_def)

theorem filter_duplicate_default_website_witness:
  "filter_duplicate plain_ctx
     [template 11 ''website.layout'' (Some 1) True None, template 10 ''website.layout'' None True None]
     = Inr [template 11 ''website.layout'' (Some 1) True None]
   \<and> filter_duplicate plain_ctx
     [template 10 ''website.layout'' None True None, template 11 ''website.layout'' (Some 1) True None]
     = Inr [template 11 ''website.layout'' (Some 1) True None]"
  using filter_duplicate_default_website[of plain_ctx "template 11 ''website.layout'' (Some 1) True None"
      "template 10 ''website.layout'' None True None"]
  by (simp add: plain_ctx_def template_def)

lemma filter_duplicate_single_key:
  assumes "found \<noteq> []" "\<forall>v\<in>set found. key v = s"
  shows "\<exists>r\<in>set found. filter_duplicate ctx found = Inr [r]
           \<and> (\<forall>y\<in>set found. sort_suitability_key ctx r \<le> sort_suitability_key ctx y)"
proof -
  define W where "W = map (\<lambda>(k, g). winner ctx g) (groupby key (sort_key key found))"
  note wp = winners_props[of ctx found, folded W_def]
  from assms(2) have uni: "(\<forall>v\<in>set found. key v = None) \<or> (\<forall>v\<in>set found. key v \<noteq> None)"
    by (cases s) simp_all
  from assms have ks: "key ` set found = {s}" by (cases found) auto
  with wp(2) have kW: "key ` set W = {s}" by simp
  then have "W \<noteq> []" by auto
  then obtain r rest where W: "W = r # rest" by (cases W) auto
  have "rest = []"
  proof (cases rest)
    case Nil then show ?thesis .
  next
    case (Cons q qs)
    with W kW have "key r = s" "key q = s" by auto
    with W Cons wp(3) show ?thesis by simp
  qed
  with W have W1: "W = [r]" by simp
  have "filter_duplicate ctx found = Inr [r]"
    by (simp add: filter_duplicate_eq[OF uni] W_def[symmetric] W1)
  moreover have "r \<in> set found" using wp(1) W1 by simp
  moreover have "\<forall>y\<in>set found. sort_suitability_key ctx r \<le> sort_suitability_key ctx y"
    using wp(4) W1 assms(2) \<open>r \<in> set found\<close> by simp
  ultimately show ?thesis by blast
qed

lemma search_set:
  "set (search ctx dmn ord db) =
     {v \<in> set (views db). list_all (holds v) dmn \<and> (\<not> active_test ctx \<or> active v)}"
  by (auto simp: search_def order_by_def split: order.splits)

lemma m2o_eq [simp]: "m2o a = m2o b \<longleftrightarrow> a = b"
  by (cases a; cases b) (simp_all add: m2o_def)

lemma m2o_false [simp]: "m2o a = VFalse \<longleftrightarrow> a = None"
  by (cases a) (simp_all add: m2o_def)

lemma view_obj_domain_holds:
  "list_all (holds v) (fst (view_obj_domain ctx s)) \<longleftrightarrow>
     key v = Some s
     \<and> (ctx_website_id ctx \<noteq> None \<longrightarrow>
          website_id v = None \<or> website_id v = browse_website (context_get_website_id ctx))"
  by (auto simp: view_obj_domain_def website_domain_def leaf_holds_def field_value_def
      browse_website_def)

text \<open>
  Claim C8. \<^verbatim>\<open>_view_obj\<close> returns an argument that is neither a string nor an integer
  unchanged, and resolves an integer by browsing that id (the recordset of that id, empty for
  the falsy id 0). It resolves a string key by a domain search, for the templates with that
  key that are generic or of the current website when the context carries \<^verbatim>\<open>website_id\<close>,
  followed by the duplicate collapse, which leaves exactly one record, a most suitable one
  among those found; when the search finds nothing the result is the external-reference
  lookup's.
\<close>

theorem view_obj_resolution:
  "view_obj ctx db env_ref (Resolved x) = Inr (Passed (x :: 'a))
   \<and> view_obj ctx db env_ref (ById i) = Inr (Recordset (if i = 0 then [] else [i]) :: 'a view_res)
   \<and> set (search ctx (fst (view_obj_domain ctx s)) (snd (view_obj_domain ctx s)) db)
       = {v \<in> set (views db). key v = Some s
            \<and> (ctx_website_id ctx \<noteq> None \<longrightarrow>
                 website_id v = None \<or> website_id v = browse_website (context_get_website_id ctx))
            \<and> (\<not> active_test ctx \<or> active v)}
   \<and> (search ctx (fst (view_obj_domain ctx s)) (snd (view_obj_domain ctx s)) db = [] \<longrightarrow>
        view_obj ctx db env_ref (ByKey s) = map_sum id (Recordset :: int list \<Rightarrow> 'a view_res) (env_ref s))
   \<and> (search ctx (fst (view_obj_domain ctx s)) (snd (view_obj_domain ctx s)) db \<noteq> [] \<longrightarrow>
        (\<exists>r\<in>set (search ctx (fst (view_obj_domain ctx s)) (snd (view_obj_domain ctx s)) db).
           filter_duplicate ctx (search ctx (fst (view_obj_domain ctx s)) (snd (view_obj_domain ctx s)) db) = Inr [r]
           \<and> view_obj ctx db env_ref (ByKey s) = Inr (Recordset [id_v r] :: 'a view_res)
           \<and> key r = Some s
           \<and> (\<forall>y\<in>set (search ctx (fst (view_obj_domain ctx s)) (snd (view_obj_domain ctx s)) db).
                sort_suitability_key ctx r \<le> sort_suitability_key ctx y)))"
proof -
  let ?found = "search ctx (fst (view_obj_domain ctx s)) (snd (view_obj_domain ctx s)) db"
  have unf: "view_obj ctx db env_ref (ByKey s) =
      (if ?found \<noteq> []
       then (case filter_duplicate ctx ?found of Inl e \<Rightarrow> Inl e
             | Inr rs \<Rightarrow> Inr (Recordset (map id_v rs) :: 'a view_res))
       else (case env_ref s of Inl e \<Rightarrow> Inl e | Inr ids \<Rightarrow> Inr (Recordset ids)))"
    by (simp add: view_obj_def Let_def split_beta)
  have c0: "set ?found = {v \<in> set (views db). key v = Some s
            \<and> (ctx_website_id ctx \<noteq> None \<longrightarrow>
                 website_id v = None \<or> website_id v = browse_website (context_get_website_id ctx))
            \<and> (\<not> active_test ctx \<or> active v)}"
    unfolding search_set view_obj_domain_holds by blast
  then have keys: "\<forall>v\<in>set ?found. key v = Some s" by simp
  have c1: "view_obj ctx db env_ref (Resolved x) = Inr (Passed x)" by (simp add: view_obj_def)
  have c2: "view_obj ctx db env_ref (ById i) = Inr (Recordset (if i = 0 then [] else [i]) :: 'a view_res)"
    by (simp add: view_obj_def browse_id_def)
  have c3: "?found = [] \<longrightarrow> view_obj ctx db env_ref (ByKey s)
               = map_sum id (Recordset :: int list \<Rightarrow> 'a view_res) (env_ref s)"
    by (simp add: unf split: sum.splits)
  have c4: "?found \<noteq> [] \<longrightarrow> (\<exists>r\<in>set ?found. filter_duplicate ctx ?found = Inr [r]
           \<and> view_obj ctx db env_ref (ByKey s) = Inr (Recordset [id_v r] :: 'a view_res) \<and> key r = Some s
           \<and> (\<forall>y\<in>set ?found. sort_suitability_key ctx r \<le> sort_suitability_key ctx y))"
  proof
    assume ne: "?found \<noteq> []"
    from filter_duplicate_single_key[OF ne keys, of ctx]
    obtain r where r: "r \<in> set ?found" "filter_duplicate ctx ?found = Inr [r]"
      "\<forall>y\<in>set ?found. sort_suitability_key ctx r \<le> sort_suitability_key ctx y" by blast
    from r(1) keys have kr: "key r = Some s" by blast
    have vo: "view_obj ctx db env_ref (ByKey s) = Inr (Recordset [id_v r] :: 'a view_res)"
      using ne r(2) by (simp add: unf)
    from r(2) vo kr r(3)
    have "filter_duplicate ctx ?found = Inr [r]
           \<and> view_obj ctx db env_ref (ByKey s) = Inr (Recordset [id_v r] :: 'a view_res) \<and> key r = Some s
           \<and> (\<forall>y\<in>set ?found. sort_suitability_key ctx r \<le> sort_suitability_key ctx y)"
      by (intro conjI)
    with r(1) show "\<exists>r\<in>set ?found. filter_duplicate ctx ?found = Inr [r]
           \<and> view_obj ctx db env_ref (ByKey s) = Inr (Recordset [id_v r] :: 'a view_res) \<and> key r = Some s
           \<and> (\<forall>y\<in>set ?found. sort_suitability_key ctx r \<le> sort_suitability_key ctx y)"
      by (rule bexI[rotated])
  qed
  from c1 c2 c0 c3 c4 show ?thesis by (intro conjI)
qed

theorem view_obj_resolution_witness:
  "view_obj (website_ctx 1) layouts (\<lambda>s. Inl ValueError) (Resolved (42::nat)) = Inr (Passed 42)
   \<and> view_obj (website_ctx 1) layouts (\<lambda>s. Inl ValueError) (ById 9) = Inr (Recordset [9] :: nat view_res)
   \<and> view_obj (website_ctx 1) layouts (\<lambda>s. Inl ValueError) (ById 0) = Inr (Recordset [] :: nat view_res)
   \<and> view_obj (website_ctx 1) layouts (\<lambda>s. Inl ValueError) (ByKey ''website.unknown'')
       = (Inl ValueError :: error + nat view_res)
   \<and> view_obj (website_ctx 1) layouts (\<lambda>s. Inl ValueError) (ByKey ''website.layout'')
       = (Inr (Recordset [2]) :: error + nat view_res)"
proof -
  let ?f = "\<lambda>s::string. (Inl ValueError :: error + int list)"
  note t0 = view_obj_resolution[of "website_ctx 1" layouts ?f "42::nat" 0 "''website.unknown''"]
  note t1 = view_obj_resolution[of "website_ctx 1" layouts ?f "42::nat" 9 "''website.unknown''"]
  note t2 = view_obj_resolution[of "website_ctx 1" layouts ?f "42::nat" 9 "''website.layout''"]
  have s1: "search (website_ctx 1) (fst (view_obj_domain (website_ctx 1) ''website.unknown''))
              (snd (view_obj_domain (website_ctx 1) ''website.unknown'')) layouts = []"
    by (simp add: search_def view_obj_domain_def website_ctx_def layouts_def store_def template_def
        leaf_holds_def field_value_def order_by_def char_val_def)
  have s2: "search (website_ctx 1) (fst (view_obj_domain (website_ctx 1) ''website.layout''))
              (snd (view_obj_domain (website_ctx 1) ''website.layout'')) layouts
            = [template 2 ''website.layout'' (Some 1) True None, template 1 ''website.layout'' None True None]"
    by (simp add: search_def view_obj_domain_def website_ctx_def layouts_def store_def template_def
        leaf_holds_def field_value_def order_by_def website_domain_def context_get_website_id_def
        truthy_def m2o_def website_order_key_def less_eq_prod_def char_val_def)
  have fd: "filter_duplicate (website_ctx 1)
              [template 2 ''website.layout'' (Some 1) True None, template 1 ''website.layout'' None True None]
            = Inr [template 2 ''website.layout'' (Some 1) True None]"
    by (simp add: filter_duplicate_def sorted_on_key_def sort_suitability_key_def first_def
        less_eq_prod_def website_ctx_def template_def)
  from t2 have "search (website_ctx 1) (fst (view_obj_domain (website_ctx 1) ''website.layout''))
              (snd (view_obj_domain (website_ctx 1) ''website.layout'')) layouts \<noteq> [] \<longrightarrow>
        (\<exists>r\<in>set (search (website_ctx 1) (fst (view_obj_domain (website_ctx 1) ''website.layout''))
              (snd (view_obj_domain (website_ctx 1) ''website.layout'')) layouts).
           filter_duplicate (website_ctx 1) (search (website_ctx 1) (fst (view_obj_domain (website_ctx 1) ''website.layout''))
              (snd (view_obj_domain (website_ctx 1) ''website.layout'')) layouts) = Inr [r]
           \<and> view_obj (website_ctx 1) layouts ?f (ByKey ''website.layout'') = Inr (Recordset [id_v r] :: nat view_res)
           \<and> key r = Some ''website.layout''
           \<and> (\<forall>y\<in>set (search (website_ctx 1) (fst (view_obj_domain (website_ctx 1) ''website.layout''))
              (snd (view_obj_domain (website_ctx 1) ''website.layout'')) layouts).
                sort_suitability_key (website_ctx 1) r \<le> sort_suitability_key (website_ctx 1) y))"
    by (elim conjE)
  then obtain r where fr: "filter_duplicate (website_ctx 1)
              [template 2 ''website.layout'' (Some 1) True None, template 1 ''website.layout'' None True None] = Inr [r]"
     and vr: "view_obj (website_ctx 1) layouts ?f (ByKey ''website.layout'') = Inr (Recordset [id_v r] :: nat view_res)"
    unfolding s2 by blast
  from fr fd have "r = template 2 ''website.layout'' (Some 1) True None" by simp
  then have "id_v r = 2" by (simp add: template_def)
  with vr have k: "view_obj (website_ctx 1) layouts ?f (ByKey ''website.layout'')
       = (Inr (Recordset [2]) :: error + nat view_res)"
    by simp
  from t1 s1 have u: "view_obj (website_ctx 1) layouts ?f (ByKey ''website.unknown'')
       = (Inl ValueError :: error + nat view_res)" by simp
  from t0 have z: "view_obj (website_ctx 1) layouts ?f (ById 0) = Inr (Recordset [] :: nat view_res)"
    by simp
  from t1 have "view_obj (website_ctx 1) layouts ?f (Resolved (42::nat)) = Inr (Passed 42)"
    and "view_obj (website_ctx 1) layouts ?f (ById 9) = Inr (Recordset [9] :: nat view_res)"
    by simp_all
  with z u k show ?thesis by (intro conjI)
qed

lemma get_view_id_domain_holds:
  "list_all (holds v) (get_view_id_domain cw themes s) \<longleftrightarrow>
     key v = Some s \<and> (theme_id v \<in> Some ` set themes
                  \<or> theme_id v = None \<and> (website_id v = None \<or> website_id v = cw))"
  by (cases "theme_id v"; cases "website_id v"; cases cw)
     (auto simp: get_view_id_domain_def expression_AND_def expression_OR_def website_domain_def
        leaf_holds_def field_value_def m2o_def truthy_def Let_def)

lemma take1_sort_key:
  fixes f :: "'a \<Rightarrow> 'k::linorder"
  shows "take (Suc 0) (sort_key f xs) = (if xs = [] then [] else [hd (sort_key f xs)])"
proof (cases "sort_key f xs")
  case Nil
  then have "xs = []" by (metis length_0_conv length_sort)
  then show ?thesis by simp
next
  case (Cons a list)
  then have "xs \<noteq> []" by auto
  with Cons show ?thesis by simp
qed

text \<open>
  Claim C6. \<^verbatim>\<open>get_view_id\<close> returns a numeric id as it is. For a string key in a context
  that carries \<^verbatim>\<open>website_id\<close> it searches the templates with that key that belong to a theme
  of the current website or are theme-unscoped and in the website's domain (inactive rows
  are left out by the search unless active-filtering is disabled), and raises the not-found
  error exactly when there is no such template; otherwise it returns the id of a match that
  comes first in the order by \<^verbatim>\<open>website_id\<close>.
\<close>

theorem get_view_id_resolution:
  "get_view_id ctx db dflt (XInt i) = Inr i
   \<and> (\<forall>themes. ctx_website_id ctx \<noteq> None
         \<and> website_theme_ids db (browse_website (context_get_website_id ctx)) = Inr themes \<longrightarrow>
        (let cw = browse_website (context_get_website_id ctx);
             matching = filter (\<lambda>v. (key v = Some s
                            \<and> (theme_id v \<in> Some ` set themes
                               \<or> theme_id v = None \<and> (website_id v = None \<or> website_id v = cw)))
                            \<and> (\<not> active_test ctx \<or> active v)) (views db)
         in (get_view_id ctx db dflt (XStr s) = Inl ValueError \<longleftrightarrow> matching = [])
          \<and> (matching \<noteq> [] \<longrightarrow>
               (\<exists>v\<in>set matching. get_view_id ctx db dflt (XStr s) = Inr (id_v v)
                  \<and> (\<forall>u\<in>set matching. website_order_key v \<le> website_order_key u)))))"
proof -
  have int: "get_view_id ctx db dflt (XInt i) = Inr i"
    by (simp add: get_view_id_def super_get_view_id_def)
  have str: "(let cw = browse_website (context_get_website_id ctx);
             matching = filter (\<lambda>v. (key v = Some s
                            \<and> (theme_id v \<in> Some ` set themes
                               \<or> theme_id v = None \<and> (website_id v = None \<or> website_id v = cw)))
                            \<and> (\<not> active_test ctx \<or> active v)) (views db)
         in (get_view_id ctx db dflt (XStr s) = Inl ValueError \<longleftrightarrow> matching = [])
          \<and> (matching \<noteq> [] \<longrightarrow>
               (\<exists>v\<in>set matching. get_view_id ctx db dflt (XStr s) = Inr (id_v v)
                  \<and> (\<forall>u\<in>set matching. website_order_key v \<le> website_order_key u))))"
    if h: "ctx_website_id ctx \<noteq> None"
      "website_theme_ids db (browse_website (context_get_website_id ctx)) = Inr themes" for themes
  proof -
    define cw where "cw = browse_website (context_get_website_id ctx)"
    define matching where "matching = filter (\<lambda>v. (key v = Some s
                            \<and> (theme_id v \<in> Some ` set themes
                               \<or> theme_id v = None \<and> (website_id v = None \<or> website_id v = cw)))
                            \<and> (\<not> active_test ctx \<or> active v)) (views db)"
    have srch: "search ctx (get_view_id_domain cw themes s) ByWebsite db
                  = sort_key website_order_key matching"
      by (simp add: search_def order_by_def matching_def get_view_id_domain_holds)
    have gv: "get_view_id ctx db dflt (XStr s) =
        (case take 1 (sort_key website_order_key matching) of [] \<Rightarrow> Inl ValueError | v # _ \<Rightarrow> Inr (id_v v))"
      using h by (simp add: get_view_id_def cw_def[symmetric] srch)
    have a: "get_view_id ctx db dflt (XStr s) = Inl ValueError \<longleftrightarrow> matching = []"
      by (simp add: gv take1_sort_key)
    have b: "\<exists>v\<in>set matching. get_view_id ctx db dflt (XStr s) = Inr (id_v v)
                  \<and> (\<forall>u\<in>set matching. website_order_key v \<le> website_order_key u)"
      if ne: "matching \<noteq> []"
    proof -
      from hd_sort_key_min[OF ne, of website_order_key]
      have "hd (sort_key website_order_key matching) \<in> set matching"
        and "\<forall>y\<in>set matching. website_order_key (hd (sort_key website_order_key matching))
               \<le> website_order_key y" by auto
      moreover have "get_view_id ctx db dflt (XStr s) = Inr (id_v (hd (sort_key website_order_key matching)))"
        using ne by (simp add: gv take1_sort_key)
      ultimately show ?thesis by blast
    qed
    from a b show ?thesis unfolding Let_def cw_def[symmetric] matching_def[symmetric] by blast
  qed
  from int str show ?thesis by blast
qed

theorem get_view_id_resolution_witness:
  "get_view_id (website_ctx 1) layouts (\<lambda>s. Inl ValueError) (XInt 9) = Inr 9
   \<and> get_view_id (website_ctx 1) layouts (\<lambda>s. Inl ValueError) (XStr ''website.unknown'') = Inl ValueError
   \<and> get_view_id (website_ctx 1) layouts (\<lambda>s. Inl ValueError) (XStr ''website.layout'') = Inr 2"
proof -
  let ?f = "\<lambda>s::string. (Inl ValueError :: error + int)"
  have h: "ctx_website_id (website_ctx 1) \<noteq> None
         \<and> website_theme_ids layouts (browse_website (context_get_website_id (website_ctx 1))) = Inr []"
    by (simp add: website_ctx_def website_theme_ids_def browse_website_def context_get_website_id_def
        truthy_def layouts_def store_def)
  have a: "get_view_id (website_ctx 1) layouts ?f (XStr ''website.unknown'') = Inl ValueError"
    using get_view_id_resolution[of "website_ctx 1" layouts ?f 9 "''website.unknown''"] h
    by (simp add: Let_def layouts_def store_def template_def)
  have "\<exists>i. get_view_id (website_ctx 1) layouts ?f (XStr ''website.layout'') = Inr i"
    using get_view_id_resolution[of "website_ctx 1" layouts ?f 9 "''website.layout''"] h
    by (auto simp: Let_def layouts_def store_def template_def browse_website_def
        context_get_website_id_def truthy_def website_ctx_def)
  moreover have "get_view_id (website_ctx 1) layouts ?f (XStr ''website.layout'') = Inr 2"
    by (simp add: get_view_id_def website_ctx_def website_theme_ids_def browse_website_def
        context_get_website_id_def truthy_def layouts_def store_def search_def order_by_def
        get_view_id_domain_def expression_AND_def expression_OR_def website_domain_def
        leaf_holds_def field_value_def m2o_def template_def website_order_key_def less_eq_prod_def)
  ultimately show ?thesis
    using get_view_id_resolution[of "website_ctx 1" layouts ?f 9 "''website.unknown''"] a by simp
qed

lemma find_by_id:
  "distinct (map id_v xs) \<Longrightarrow> v \<in> set xs \<Longrightarrow> find (\<lambda>u. id_v u = id_v v) xs = Some v"
  by (induction xs) (auto simp: image_iff)

lemma read_existing:
  "distinct (map id_v (views db)) \<Longrightarrow> v \<in> set (views db) \<Longrightarrow> read db (id_v v) = Inr v"
  by (simp add: read_def find_by_id)

lemma browse_existing:
  "distinct (map id_v (views db)) \<Longrightarrow> set rows \<subseteq> set (views db) \<Longrightarrow>
     browse db (map id_v rows) = Inr rows"
  by (induction rows) (simp_all add: read_existing)

lemma filter_duplicate_sound:
  assumes "(\<forall>v\<in>set xs. key v = None) \<or> (\<forall>v\<in>set xs. key v \<noteq> None)"
  shows "\<exists>ys. filter_duplicate ctx xs = Inr ys \<and> set ys \<subseteq> set xs
     \<and> (\<forall>r\<in>set ys. \<forall>y\<in>set xs. key y = key r \<longrightarrow>
           sort_suitability_key ctx r \<le> sort_suitability_key ctx y)"
proof -
  define W where "W = map (\<lambda>(k, g). winner ctx g) (groupby key (sort_key key xs))"
  note wp = winners_props[of ctx xs, folded W_def]
  have "filter_duplicate ctx xs = Inr (sort_key (\<lambda>view. (priority view, id_v view)) W)"
    by (simp add: filter_duplicate_eq[OF assms] W_def)
  with wp(1) wp(4) show ?thesis by simp
qed

lemma inheriting_domain_website:
  assumes "ctx_website_id ctx = Some (Some w)" "w \<noteq> 0" "website_theme_ids db (Some w) = Inr themes"
  shows "\<exists>D. get_inheriting_views_arch_domain ctx db base_domain = Inr D
           \<and> (\<forall>v. list_all (holds v) D \<longleftrightarrow>
                  (website_id v = None \<or> website_id v = Some w \<or> theme_id v \<in> Some ` set themes)
                  \<and> list_all (leaf_holds v) (filter (\<lambda>l. \<not> leaf_contains ''active'' l) base_domain))"
proof -
  have cw: "get_inheriting_views_arch_website ctx = Some w"
    using assms(1,2)
    by (simp add: get_inheriting_views_arch_website_def browse_website_def
        context_get_website_id_def truthy_def)
  let ?dmn = "filter (\<lambda>l. \<not> leaf_contains ''active'' l) base_domain"
  have web: "list_all (holds v) (website_domain (Some w) None)
               \<longleftrightarrow> website_id v = None \<or> website_id v = Some w" for v
    by (auto simp: website_domain_def leaf_holds_def field_value_def truthy_def)
  have thq: "holds v (Leaf (''theme_id'', In, VList (map VInt themes)))
               \<longleftrightarrow> theme_id v \<in> Some ` set themes" for v
    by (cases "theme_id v") (auto simp: leaf_holds_def field_value_def m2o_def)
  have lv: "list_all (holds v) (map Leaf ?dmn) \<longleftrightarrow> list_all (leaf_holds v) ?dmn" for v
    by (simp add: list_all_iff)
  show ?thesis
  proof (cases "themes = []")
    case True
    have "get_inheriting_views_arch_domain ctx db base_domain
            = Inr (expression_AND [website_domain (Some w) None, map Leaf ?dmn])"
      using True assms(3) by (simp add: get_inheriting_views_arch_domain_def cw Let_def)
    moreover have "list_all (holds v) (expression_AND [website_domain (Some w) None, map Leaf ?dmn])
        \<longleftrightarrow> (website_id v = None \<or> website_id v = Some w \<or> theme_id v \<in> Some ` set themes)
            \<and> list_all (leaf_holds v) ?dmn" for v
      using True by (simp add: expression_AND_def web lv)
    ultimately show ?thesis by simp
  next
    case False
    let ?D = "expression_AND
                [expression_OR [website_domain (Some w) None,
                                [Leaf (''theme_id'', In, VList (map VInt themes))]],
                 map Leaf ?dmn]"
    have "get_inheriting_views_arch_domain ctx db base_domain = Inr ?D"
      using False assms(3) by (simp add: get_inheriting_views_arch_domain_def cw Let_def)
    moreover have "list_all (holds v) ?D
        \<longleftrightarrow> (website_id v = None \<or> website_id v = Some w \<or> theme_id v \<in> Some ` set themes)
            \<and> list_all (leaf_holds v) ?dmn" for v
      using web[of v] thq[of v] lv[of v]
      by (simp add: expression_AND_def expression_OR_def)
    ultimately show ?thesis by simp
  qed
qed

text \<open>
  Claim C4. In the context of website \<open>w\<close>, when an inactive template specific to \<open>w\<close>
  is among the inheriting views and no active template of \<open>w\<close> has its key,
  \<^verbatim>\<open>get_inheriting_views_arch\<close> returns no entry for that key: the search runs with
  active-filtering disabled, the website-specific record wins the duplicate collapse over
  any generic record of the key, active or not, and is then dropped for being inactive. The
  inheriting views are the templates that meet the base domain without its \<^verbatim>\<open>active\<close> leaves
  and are generic, of the website or of one of its themes; the result is returned when they
  all have a key or all have none, as when they share one key, and the duplicate collapse
  raises \<^verbatim>\<open>TypeError\<close> otherwise.
\<close>

theorem inactive_specific_shadows_generic:
  assumes ids: "distinct (map id_v (views db))"
    and ctx: "ctx_website_id ctx = Some (Some w)" "w \<noteq> 0"
    and themes: "website_theme_ids db (Some w) = Inr themes"
    and s: "s \<in> set (views db)" "website_id s = Some w"
    and base: "list_all (leaf_holds s) (filter (\<lambda>l. \<not> leaf_contains ''active'' l) base_domain)"
    and inactive: "\<forall>v\<in>set (views db). key v = key s \<and> website_id v = Some w \<longrightarrow> \<not> active v"
  shows "((\<forall>u\<in>set (views db).
             (website_id u = None \<or> website_id u = Some w \<or> theme_id u \<in> Some ` set themes)
             \<and> list_all (leaf_holds u) (filter (\<lambda>l. \<not> leaf_contains ''active'' l) base_domain)
             \<longrightarrow> (key u = None \<longleftrightarrow> key s = None))
          \<longrightarrow> (\<exists>res. get_inheriting_views_arch ctx db base_domain = Inr res
                 \<and> (\<forall>v\<in>set (views db). key v = key s \<longrightarrow> id_v v \<notin> snd ` set res)))
       \<and> ((\<exists>u\<in>set (views db).
             (website_id u = None \<or> website_id u = Some w \<or> theme_id u \<in> Some ` set themes)
             \<and> list_all (leaf_holds u) (filter (\<lambda>l. \<not> leaf_contains ''active'' l) base_domain)
             \<and> (key u = None) \<noteq> (key s = None))
          \<longrightarrow> get_inheriting_views_arch ctx db base_domain = Inl TypeError)"
proof -
  let ?ctx' = "ctx\<lparr>active_test := False\<rparr>"
  let ?dmn = "filter (\<lambda>l. \<not> leaf_contains ''active'' l) base_domain"
  have ctx': "ctx_website_id ?ctx' = Some (Some w)" using ctx by simp
  from inheriting_domain_website[OF ctx' ctx(2) themes, of base_domain]
  obtain D where D: "get_inheriting_views_arch_domain ?ctx' db base_domain = Inr D"
    and Dv: "\<And>v. list_all (holds v) D \<longleftrightarrow>
                  (website_id v = None \<or> website_id v = Some w \<or> theme_id v \<in> Some ` set themes)
                  \<and> list_all (leaf_holds v) ?dmn" by blast
  define S where "S = search ?ctx' D ByDefault db"
  have Sset: "set S = {v \<in> set (views db).
                  (website_id v = None \<or> website_id v = Some w \<or> theme_id v \<in> Some ` set themes)
                  \<and> list_all (leaf_holds v) ?dmn}"
    by (simp add: S_def search_set Dv)
  then have sub: "set S \<subseteq> set (views db)" and sS: "s \<in> set S" using s base by auto
  have sup: "super_get_inheriting_views_arch ?ctx' db base_domain = Inr (map (\<lambda>v. (arch v, id_v v)) S)"
    by (simp add: super_get_inheriting_views_arch_def D S_def)
  have br: "browse db (map snd (map (\<lambda>v. (arch v, id_v v)) S)) = Inr S"
    using browse_existing[OF ids sub] by (simp add: comp_def)
  have tr: "truthy (context_get_website_id ctx)"
    using ctx by (simp add: truthy_def context_get_website_id_def)
  have unf: "get_inheriting_views_arch ctx db base_domain
               = (case filter_duplicate ctx S of
                    Inl e \<Rightarrow> Inl e
                  | Inr fd \<Rightarrow> Inr (map (\<lambda>v. (arch v, id_v v)) (filter active fd)))"
    using tr by (simp add: get_inheriting_views_arch_def sup br del: map_map)
  have a: "\<exists>res. get_inheriting_views_arch ctx db base_domain = Inr res
                 \<and> (\<forall>v\<in>set (views db). key v = key s \<longrightarrow> id_v v \<notin> snd ` set res)"
    if same: "\<forall>u\<in>set (views db).
             (website_id u = None \<or> website_id u = Some w \<or> theme_id u \<in> Some ` set themes)
             \<and> list_all (leaf_holds u) ?dmn \<longrightarrow> (key u = None \<longleftrightarrow> key s = None)"
  proof -
    from same Sset have "\<forall>u\<in>set S. key u = None \<longleftrightarrow> key s = None" by simp
    then have uni: "(\<forall>v\<in>set S. key v = None) \<or> (\<forall>v\<in>set S. key v \<noteq> None)" by blast
    from filter_duplicate_sound[OF uni, of ctx]
    obtain ys where ys: "filter_duplicate ctx S = Inr ys" "set ys \<subseteq> set S"
      and mn: "\<forall>r\<in>set ys. \<forall>y\<in>set S. key y = key r \<longrightarrow>
           sort_suitability_key ctx r \<le> sort_suitability_key ctx y" by blast
    have res: "get_inheriting_views_arch ctx db base_domain
               = Inr (map (\<lambda>v. (arch v, id_v v)) (filter active ys))"
      by (simp add: unf ys(1))
    have "id_v v \<notin> snd ` set (map (\<lambda>v. (arch v, id_v v)) (filter active ys))"
      if v: "v \<in> set (views db)" "key v = key s" for v
    proof
      assume "id_v v \<in> snd ` set (map (\<lambda>v. (arch v, id_v v)) (filter active ys))"
      then obtain r where r: "r \<in> set ys" "active r" "id_v r = id_v v" by auto
      with ys sub have rv: "r \<in> set (views db)" by blast
      from ids rv v(1) r(3) have "r = v" by (metis distinct_map inj_on_def)
      with v have kr: "key s = key r" by simp
      from mn r(1) sS kr have "sort_suitability_key ctx r \<le> sort_suitability_key ctx s" by simp
      from suit_match[OF ctx(1) s(2) this ctx(2)] have "website_id r = Some w" .
      with inactive rv kr have "\<not> active r" by simp
      with r(2) show False by simp
    qed
    with res show ?thesis by blast
  qed
  have b: "get_inheriting_views_arch ctx db base_domain = Inl TypeError"
    if mixed: "\<exists>u\<in>set (views db).
             (website_id u = None \<or> website_id u = Some w \<or> theme_id u \<in> Some ` set themes)
             \<and> list_all (leaf_holds u) ?dmn \<and> (key u = None) \<noteq> (key s = None)"
  proof -
    from mixed obtain u where u0: "u \<in> set (views db)"
        "(website_id u = None \<or> website_id u = Some w \<or> theme_id u \<in> Some ` set themes)
         \<and> list_all (leaf_holds u) ?dmn"
      and u2: "(key u = None) \<noteq> (key s = None)" by blast
    from u0 have "u \<in> set S" unfolding Sset by simp
    with u2 have u: "u \<in> set S" "(key u = None) \<noteq> (key s = None)" by simp_all
    have "filter_duplicate ctx S = Inl TypeError"
    proof (cases "key s")
      case None
      with u(2) have "key u \<noteq> None" by simp
      from filter_duplicate_mixed[OF sS None u(1) this] show ?thesis .
    next
      case (Some k)
      with u(2) have "key u = None" by simp
      from filter_duplicate_mixed[OF u(1) this sS] Some show ?thesis by simp
    qed
    then show ?thesis by (simp add: unf)
  qed
  from a b show ?thesis by blast
qed

theorem inactive_specific_shadows_generic_witness:
  "get_inheriting_views_arch (website_ctx 1) patches
     [(''inherit_id'', Eq, VInt 1), (''active'', Eq, VTrue)] = Inr []
   \<and> get_inheriting_views_arch (website_ctx 2) patches
     [(''inherit_id'', Eq, VInt 1), (''active'', Eq, VTrue)] = Inr [(''<t/>'', 2)]"
proof -
  let ?base = "[(''inherit_id'', Eq, VInt 1), (''active'', Eq, VTrue)]"
  let ?s = "template 3 ''website.footer'' (Some 1) False (Some 1)"
  have ids: "distinct (map id_v (views patches))"
    by (simp add: patches_def store_def template_def)
  have ctx: "ctx_website_id (website_ctx 1) = Some (Some 1)" "(1::int) \<noteq> 0"
    by (simp_all add: website_ctx_def)
  have themes: "website_theme_ids patches (Some 1) = Inr []"
    by (simp add: website_theme_ids_def patches_def store_def)
  have s: "?s \<in> set (views patches)" "website_id ?s = Some 1"
    by (simp_all add: patches_def store_def template_def)
  have base: "list_all (leaf_holds ?s) (filter (\<lambda>l. \<not> leaf_contains ''active'' l) ?base)"
    by (simp add: leaf_contains_def leaf_holds_def field_value_def template_def m2o_def cmp_str_def)
  have inactive: "\<forall>v\<in>set (views patches). key v = key ?s \<and> website_id v = Some 1 \<longrightarrow> \<not> active v"
    by (simp add: patches_def store_def template_def)
  have keyed: "\<forall>u\<in>set (views patches).
             (website_id u = None \<or> website_id u = Some 1 \<or> theme_id u \<in> Some ` set [])
             \<and> list_all (leaf_holds u) (filter (\<lambda>l. \<not> leaf_contains ''active'' l) ?base)
             \<longrightarrow> (key u = None \<longleftrightarrow> key ?s = None)"
    by (simp add: patches_def store_def template_def)
  from inactive_specific_shadows_generic[OF ids ctx themes s base inactive] keyed
  obtain res where res: "get_inheriting_views_arch (website_ctx 1) patches ?base = Inr res"
    and no: "\<forall>v\<in>set (views patches). key v = key ?s \<longrightarrow> id_v v \<notin> snd ` set res" by blast
  have "get_inheriting_views_arch (website_ctx 1) patches ?base = Inr []"
    by (simp add: get_inheriting_views_arch_def super_get_inheriting_views_arch_def
        get_inheriting_views_arch_domain_def get_inheriting_views_arch_website_def
        website_ctx_def website_theme_ids_def browse_website_def
        context_get_website_id_def truthy_def patches_def store_def search_def order_by_def
        expression_AND_def expression_OR_def website_domain_def leaf_contains_def cmp_str_def
        leaf_holds_def field_value_def m2o_def template_def less_eq_prod_def read_def
        filter_duplicate_def sorted_on_key_def sort_suitability_key_def first_def)
  moreover have "get_inheriting_views_arch (website_ctx 2) patches ?base = Inr [(''<t/>'', 2)]"
    by (simp add: get_inheriting_views_arch_def super_get_inheriting_views_arch_def
        get_inheriting_views_arch_domain_def get_inheriting_views_arch_website_def
        website_ctx_def website_theme_ids_def browse_website_def
        context_get_website_id_def truthy_def patches_def store_def search_def order_by_def
        expression_AND_def expression_OR_def website_domain_def leaf_contains_def cmp_str_def
        leaf_holds_def field_value_def m2o_def template_def less_eq_prod_def read_def
        filter_duplicate_def sorted_on_key_def sort_suitability_key_def first_def)
  ultimately show ?thesis using res by simp
qed

text \<open>
  Claim C10. During the update of a theme module, a view that has no external-id record, or
  whose external id belongs to the updating theme, is not diverted:
  \<^verbatim>\<open>_get_theme_specific_view\<close> returns the view itself and \<^verbatim>\<open>write\<close> applies the values in
  place. No fork is created, website-specific or theme-specific: the table keeps its ids and
  the id sequence does not advance.
\<close>

theorem theme_update_writes_in_place:
  assumes theme: "str_in ''theme_'' (currently_updating ctx)" and cow: "\<not> no_cow ctx"
    and xml: "filter (\<lambda>x. xml_model x = ''ir.ui.view'' \<and> res_id x = v) (ir_model_data db) = []
              \<or> (\<exists>x. filter (\<lambda>x. xml_model x = ''ir.ui.view'' \<and> res_id x = v) (ir_model_data db) = [x]
                      \<and> xml_module x = currently_updating ctx)"
  shows "get_theme_specific_view ctx db v (currently_updating ctx) = Inr ([v], db)
       \<and> write_cow (Suc n) ctx [v] vs db = Inr (super_write [v] vs db)
       \<and> map id_v (views (super_write [v] vs db)) = map id_v (views db)
       \<and> next_view_id (super_write [v] vs db) = next_view_id db"
proof -
  have g: "get_theme_specific_view ctx db v (currently_updating ctx) = Inr ([v], db)"
    using xml by (auto simp: get_theme_specific_view_def Let_def)
  have w: "write_cow (Suc n) ctx [v] vs db = Inr (super_write [v] vs db)"
    using theme cow by (simp add: write_body_def g write_view_def truthy_def)
  have i: "map id_v (views (super_write [v] vs db)) = map id_v (views db)"
    by (simp add: super_write_def apply_vals_def comp_def)
  have n: "next_view_id (super_write [v] vs db) = next_view_id db"
    by (simp add: super_write_def)
  from g w i n show ?thesis by blast
qed

theorem theme_update_writes_in_place_witness:
  "write_cow 1 (theme_ctx 1) [1] (no_vals\<lparr>v_arch := Some ''<blue/>''\<rparr>) layouts
     = Inr (layouts\<lparr>views := [(template 1 ''website.layout'' None True None)\<lparr>arch := ''<blue/>''\<rparr>,
                               template 2 ''website.layout'' (Some 1) True None,
                               template 3 ''website.layout'' (Some 2) True None]\<rparr>)"
proof -
  have theme: "str_in ''theme_'' (currently_updating (theme_ctx 1))"
    by (simp add: currently_updating_def theme_ctx_def)
  have cow: "\<not> no_cow (theme_ctx 1)" by (simp add: theme_ctx_def)
  have xml: "filter (\<lambda>x. xml_model x = ''ir.ui.view'' \<and> res_id x = 1) (ir_model_data layouts) = []
              \<or> (\<exists>x. filter (\<lambda>x. xml_model x = ''ir.ui.view'' \<and> res_id x = 1) (ir_model_data layouts) = [x]
                      \<and> xml_module x = currently_updating (theme_ctx 1))"
    by (simp add: layouts_def store_def)
  from theme_update_writes_in_place[OF theme cow xml, of 0 "no_vals\<lparr>v_arch := Some ''<blue/>''\<rparr>"]
  show ?thesis
    by (simp add: super_write_def layouts_def store_def template_def apply_vals_def no_vals_def)
qed

section \<open>Copy on write: the fork and its frame\<close>

lemma wf_dbD:
  assumes "wf_db db"
  shows "distinct (map id_v (views db))"
    and "v \<in> set (views db) \<Longrightarrow> id_v v < next_view_id db"
    and "v \<in> set (views db) \<Longrightarrow> inherit_id v = Some p \<Longrightarrow> p < next_view_id db"
  using assms by (auto simp: wf_db_def list_all_iff split: option.splits)



lemma read_wf: "wf_db db \<Longrightarrow> v \<in> set (views db) \<Longrightarrow> read db (id_v v) = Inr v"
  by (simp add: read_existing wf_dbD(1))














































lemma apply_vals_id [simp]: "id_v (apply_vals vs v) = id_v v"
  by (simp add: apply_vals_def)






section \<open>Copy on write: the children of the forked template\<close>

text \<open>
  Claim C7 fails on the code for an inheriting child that is specific to another website.
  Website 1 writes to the generic template 1, whose child 2 belongs to website 2. The page of
  the template and the page's menu entry are copied for the fork, but the child is not: the
  \<^verbatim>\<open>write\<close> of its parent is applied to the child's own row, so the fork of website 1 owns a
  record of website 2 that was not newly created, the original template loses it, and
  website 2 no longer finds it among the views inheriting from the template.
\<close>

theorem write_moves_child_of_other_website:
  "get_inheriting_views_arch (website_ctx 2) shared [(''inherit_id'', Eq, VInt 1)] = Inr [(''<t/>'', 2)]
   \<and> (\<exists>db'. write_cow 3 (website_ctx 1) [1] (no_vals\<lparr>v_arch := Some ''<one/>''\<rparr>) shared = Inr db'
         \<and> views db' = [template 1 ''website.layout'' None True None,
                         template 2 ''website.footer'' (Some 2) True (Some 3),
                         (template 3 ''website.layout'' (Some 1) True None)\<lparr>arch := ''<one/>''\<rparr>]
         \<and> pages db' = [\<lparr>id_p = 1, url = ''/home'', view_id = Some 1\<rparr>,
                         \<lparr>id_p = 2, url = ''/home'', view_id = Some 3\<rparr>]
         \<and> menus db' = [\<lparr>id_m = 1, label = ''Home'', page_id = Some 1\<rparr>,
                         \<lparr>id_m = 2, label = ''Home'', page_id = Some 2\<rparr>]
         \<and> get_inheriting_views_arch (website_ctx 2) db' [(''inherit_id'', Eq, VInt 1)] = Inr [])"
proof -
  let ?db' = "shared\<lparr>views := [template 1 ''website.layout'' None True None,
                         template 2 ''website.footer'' (Some 2) True (Some 3),
                         (template 3 ''website.layout'' (Some 1) True None)\<lparr>arch := ''<one/>''\<rparr>],
                     next_view_id := 4,
                     pages := [\<lparr>id_p = 1, url = ''/home'', view_id = Some 1\<rparr>,
                         \<lparr>id_p = 2, url = ''/home'', view_id = Some 3\<rparr>], next_page_id := 3,
                     menus := [\<lparr>id_m = 1, label = ''Home'', page_id = Some 1\<rparr>,
                         \<lparr>id_m = 2, label = ''Home'', page_id = Some 2\<rparr>], next_menu_id := 3\<rparr>"
  have w: "write_cow 3 (website_ctx 1) [1] (no_vals\<lparr>v_arch := Some ''<one/>''\<rparr>) shared = Inr ?db'"
    by (simp add: numeral_3_eq_3 write_body_def website_ctx_def currently_updating_def
        context_get_website_id_def write_view_def truthy_def read_def shared_def store_def
        template_def copy_def Let_def apply_vals_def no_vals_def
        create_website_specific_pages_for_view_def page_copy_def menu_write_def
        inherit_children_ids_def super_write_def)
  have b: "get_inheriting_views_arch (website_ctx 2) shared [(''inherit_id'', Eq, VInt 1)]
             = Inr [(''<t/>'', 2)]"
    by (simp add: get_inheriting_views_arch_def super_get_inheriting_views_arch_def
        get_inheriting_views_arch_domain_def get_inheriting_views_arch_website_def
        website_ctx_def website_theme_ids_def browse_website_def
        context_get_website_id_def truthy_def shared_def store_def search_def order_by_def
        expression_AND_def expression_OR_def website_domain_def leaf_contains_def cmp_str_def
        leaf_holds_def field_value_def m2o_def template_def less_eq_prod_def read_def
        filter_duplicate_def sorted_on_key_def sort_suitability_key_def first_def)
  have a: "get_inheriting_views_arch (website_ctx 2) ?db' [(''inherit_id'', Eq, VInt 1)] = Inr []"
    by (simp add: get_inheriting_views_arch_def super_get_inheriting_views_arch_def
        get_inheriting_views_arch_domain_def get_inheriting_views_arch_website_def
        website_ctx_def website_theme_ids_def browse_website_def
        context_get_website_id_def truthy_def shared_def store_def search_def order_by_def
        expression_AND_def expression_OR_def website_domain_def leaf_contains_def cmp_str_def
        leaf_holds_def field_value_def m2o_def template_def less_eq_prod_def read_def
        filter_duplicate_def sorted_on_key_def sort_suitability_key_def first_def)
  from w a b show ?thesis by (intro conjI exI[of _ ?db']) (simp_all add: shared_def)
qed

section \<open>Theme forks\<close>

lemma apply_vals_idem: "apply_vals vs (apply_vals vs v) = apply_vals vs v"
  by (simp add: apply_vals_def split: option.splits)

lemma write_cow_theme_single:
  assumes "str_in ''theme_'' (currently_updating ctx)" "\<not> no_cow ctx"
    and "get_theme_specific_view ctx db v (currently_updating ctx) = Inr (view', db1)"
  shows "write_cow (Suc n) ctx [v] vs db = Inr (super_write view' vs db1)"
  using assms by (simp add: write_body_def write_view_def truthy_def)

lemma search_theme_fork:
  "search ctx [Leaf (''key'', Eq, char_val k), Leaf (''theme_id'', Eq, m2o (Some t))] ByDefault db
     = sort_key (\<lambda>v. (priority v, id_v v))
         (filter (\<lambda>v. (key v = k \<and> theme_id v = Some t) \<and> (\<not> active_test ctx \<or> active v)) (views db))"
proof -
  have "(\<lambda>v. list_all (holds v) [Leaf (''key'', Eq, char_val k), Leaf (''theme_id'', Eq, m2o (Some t))]
             \<and> (\<not> active_test ctx \<or> active v))
        = (\<lambda>v. (key v = k \<and> theme_id v = Some t) \<and> (\<not> active_test ctx \<or> active v))"
    by (auto simp: leaf_holds_def field_value_def m2o_def split: option.splits)
  then show ?thesis by (simp add: search_def order_by_def)
qed

text \<open>
  Claim C5, amended. During the update of a theme module, writing twice to a view whose
  external id belongs to another module creates the theme-specific fork once, provided the
  values written leave the fork's key and theme as they are and the fork is active after the
  first write (or active-filtering is disabled): the first write copies the view under the
  next id with the theme set and applies the values to the copy; the second write finds that
  copy by (key, theme), diverts to it and changes nothing, so the table holds exactly one
  template with that key and theme.
\<close>

theorem theme_fork_reused:
  assumes theme: "str_in ''theme_'' (currently_updating ctx)" and cow: "\<not> no_cow ctx"
    and wf: "wf_db db"
    and xml: "filter (\<lambda>x. xml_model x = ''ir.ui.view'' \<and> res_id x = id_v row) (ir_model_data db) = [x]"
      "xml_module x \<noteq> currently_updating ctx"
    and md: "filter (\<lambda>m. name_mod m = currently_updating ctx) (modules db) = [m]"
    and row: "row \<in> set (views db)"
    and nofork: "\<forall>r\<in>set (views db). \<not> (key r = key row \<and> theme_id r = Some (id_mod m))"
    and keep: "v_key vs = None \<or> v_key vs = Some (key row)"
      "v_theme_id vs = None \<or> v_theme_id vs = Some (Some (id_mod m))"
    and visible: "\<not> active_test ctx \<or> active (apply_vals vs row)"
  shows "\<exists>db1. write_cow (Suc n) ctx [id_v row] vs db = Inr db1
           \<and> views db1 = views db
               @ [apply_vals vs (row\<lparr>id_v := next_view_id db, theme_id := Some (id_mod m)\<rparr>)]
           \<and> write_cow (Suc n') ctx [id_v row] vs db1 = Inr db1
           \<and> filter (\<lambda>r. key r = key row \<and> theme_id r = Some (id_mod m)) (views db1)
               = [apply_vals vs (row\<lparr>id_v := next_view_id db, theme_id := Some (id_mod m)\<rparr>)]"
proof -
  let ?theme = "currently_updating ctx"
  let ?new = "next_view_id db"
  let ?cp = "row\<lparr>id_v := ?new, theme_id := Some (id_mod m)\<rparr>"
  let ?fork = "apply_vals vs ?cp"
  let ?dba = "db\<lparr>views := views db @ [?cp], next_view_id := ?new + 1\<rparr>"
  let ?dbb = "db\<lparr>views := views db @ [?fork], next_view_id := ?new + 1\<rparr>"
  have rd: "read db (id_v row) = Inr row" using read_wf[OF wf row] .
  have old: "id_v v \<noteq> ?new" if "v \<in> set (views db)" for v using wf_dbD(2)[OF wf that] by simp
  have none: "filter (\<lambda>v. (key v = key row \<and> theme_id v = Some (id_mod m))
                 \<and> (\<not> active_test ctx \<or> active v)) (views db) = []"
    using nofork by (auto simp: filter_empty_conv)
  have cp: "copy row (no_vals\<lparr>v_theme_id := Some (Some (id_mod m))\<rparr>) db = (?new, ?dba)"
    by (simp add: copy_def Let_def apply_vals_def no_vals_def)
  have s0: "search ctx [Leaf (''key'', Eq, char_val (key row)), Leaf (''theme_id'', Eq, m2o (Some (id_mod m)))]
              ByDefault db = []"
    unfolding search_theme_fork none by simp
  have g1: "get_theme_specific_view ctx db (id_v row) ?theme = Inr ([?new], ?dba)"
    using xml md rd cp by (simp add: get_theme_specific_view_def Let_def s0)
  have "map (\<lambda>v. if id_v v \<in> set [?new] then apply_vals vs v else v) (views db) = views db"
    using old by (simp add: map_idI)
  then have sw1: "super_write [?new] vs ?dba = ?dbb" by (simp add: super_write_def)
  have w1: "write_cow (Suc n) ctx [id_v row] vs db = Inr ?dbb"
    using write_cow_theme_single[OF theme cow g1, of n vs] sw1 by simp
  have fk: "key ?fork = key row" "theme_id ?fork = Some (id_mod m)" "id_v ?fork = ?new"
    "active ?fork = active (apply_vals vs row)"
    using keep by (auto simp: apply_vals_def split: option.splits)
  have flt: "filter (\<lambda>r. key r = key row \<and> theme_id r = Some (id_mod m)) (views ?dbb) = [?fork]"
    using nofork fk by (simp add: filter_empty_conv)
  have one: "filter (\<lambda>v. (key v = key row \<and> theme_id v = Some (id_mod m))
                 \<and> (\<not> active_test ctx \<or> active v)) (views ?dbb) = [?fork]"
    using none fk visible by simp
  have "?new \<notin> id_v ` set (views db)" using old by force
  then have "distinct (map id_v (views ?dbb))"
    using wf_dbD(1)[OF wf] fk(3) by simp
  moreover have "row \<in> set (views ?dbb)" using row by simp
  ultimately have rd1: "read ?dbb (id_v row) = Inr row" by (rule read_existing)
  have s1: "search ctx [Leaf (''key'', Eq, char_val (key row)), Leaf (''theme_id'', Eq, m2o (Some (id_mod m)))]
              ByDefault ?dbb = [?fork]"
    unfolding search_theme_fork one by simp
  have g2: "get_theme_specific_view ctx ?dbb (id_v row) ?theme = Inr ([?new], ?dbb)"
    using xml md rd1 fk(3) by (simp add: get_theme_specific_view_def Let_def s1)
  have "map (\<lambda>v. if id_v v \<in> set [?new] then apply_vals vs v else v) (views ?dbb) = views ?dbb"
    using old by (simp add: map_idI apply_vals_idem)
  then have sw2: "super_write [?new] vs ?dbb = ?dbb" by (simp add: super_write_def)
  have w2: "write_cow (Suc n') ctx [id_v row] vs ?dbb = Inr ?dbb"
    using write_cow_theme_single[OF theme cow g2, of n' vs] sw2 by simp
  from w1 w2 flt show ?thesis by (intro exI[of _ ?dbb]) simp
qed

theorem theme_fork_reused_witness:
  "write_cow 1 (theme_ctx 1) [1] (no_vals\<lparr>v_arch := Some ''<blue/>''\<rparr>) themed
     = Inr (themed\<lparr>views := [template 1 ''website.layout'' None True None,
                               (template 2 ''website.layout'' None True None)
                                 \<lparr>arch := ''<blue/>'', theme_id := Some 7\<rparr>],
                     next_view_id := 3\<rparr>)
   \<and> write_cow 1 (theme_ctx 1) [1] (no_vals\<lparr>v_arch := Some ''<blue/>''\<rparr>)
        (themed\<lparr>views := [template 1 ''website.layout'' None True None,
                               (template 2 ''website.layout'' None True None)
                                 \<lparr>arch := ''<blue/>'', theme_id := Some 7\<rparr>],
                     next_view_id := 3\<rparr>)
     = Inr (themed\<lparr>views := [template 1 ''website.layout'' None True None,
                               (template 2 ''website.layout'' None True None)
                                 \<lparr>arch := ''<blue/>'', theme_id := Some 7\<rparr>],
                     next_view_id := 3\<rparr>)"
proof -
  let ?row = "template 1 ''website.layout'' None True None"
  let ?vs = "no_vals\<lparr>v_arch := Some ''<blue/>''\<rparr>"
  let ?x = "\<lparr>xml_module = ''website'', xml_name = ''layout'', xml_model = ''ir.ui.view'', res_id = 1\<rparr>"
  let ?m = "\<lparr>id_mod = 7, name_mod = ''theme_blue''\<rparr>"
  have theme: "str_in ''theme_'' (currently_updating (theme_ctx 1))"
    by (simp add: currently_updating_def theme_ctx_def)
  have cow: "\<not> no_cow (theme_ctx 1)" by (simp add: theme_ctx_def)
  have wf: "wf_db themed" by (simp add: wf_db_def themed_def store_def template_def)
  have xml: "filter (\<lambda>x. xml_model x = ''ir.ui.view'' \<and> res_id x = id_v ?row) (ir_model_data themed) = [?x]"
    "xml_module ?x \<noteq> currently_updating (theme_ctx 1)"
    by (simp_all add: themed_def store_def template_def currently_updating_def theme_ctx_def)
  have md: "filter (\<lambda>m. name_mod m = currently_updating (theme_ctx 1)) (modules themed) = [?m]"
    by (simp add: themed_def store_def currently_updating_def theme_ctx_def)
  have row: "?row \<in> set (views themed)" by (simp add: themed_def store_def)
  have nofork: "\<forall>r\<in>set (views themed). \<not> (key r = key ?row \<and> theme_id r = Some (id_mod ?m))"
    by (simp add: themed_def store_def template_def)
  have keep: "v_key ?vs = None \<or> v_key ?vs = Some (key ?row)"
    "v_theme_id ?vs = None \<or> v_theme_id ?vs = Some (Some (id_mod ?m))"
    by (simp_all add: no_vals_def)
  have visible: "\<not> active_test (theme_ctx 1) \<or> active (apply_vals ?vs ?row)"
    by (simp add: apply_vals_def no_vals_def template_def)
  from theme_fork_reused[OF theme cow wf xml md row nofork keep visible, of 0 0]
  obtain db1 where a: "write_cow (Suc 0) (theme_ctx 1) [id_v ?row] ?vs themed = Inr db1"
    and b: "views db1 = views themed
               @ [apply_vals ?vs (?row\<lparr>id_v := next_view_id themed, theme_id := Some (id_mod ?m)\<rparr>)]"
    and c: "write_cow (Suc 0) (theme_ctx 1) [id_v ?row] ?vs db1 = Inr db1" by blast
  have e: "write_cow (Suc 0) (theme_ctx 1) [1] ?vs themed
     = Inr (themed\<lparr>views := [template 1 ''website.layout'' None True None,
                               (template 2 ''website.layout'' None True None)
                                 \<lparr>arch := ''<blue/>'', theme_id := Some 7\<rparr>],
                     next_view_id := 3\<rparr>)"
    by (simp add: theme_ctx_def themed_def store_def template_def read_def write_body_def
      currently_updating_def get_theme_specific_view_def write_view_def truthy_def
      super_write_def apply_vals_def no_vals_def search_def order_by_def leaf_holds_def
      field_value_def m2o_def copy_def Let_def)
  have i: "id_v ?row = 1" by (simp add: template_def)
  from a c e show ?thesis unfolding i by simp
qed

text \<open>
  Claim C5 as stated fails when the values written change the key: the fork of the first
  write no longer carries the key the second write looks up, and a second fork is created.
\<close>

theorem theme_fork_not_reused_after_key_change:
  "\<exists>db1 db2. write_cow 1 (theme_ctx 1) [1] (no_vals\<lparr>v_key := Some (Some ''theme_blue.layout'')\<rparr>) themed = Inr db1
     \<and> write_cow 1 (theme_ctx 1) [1] (no_vals\<lparr>v_key := Some (Some ''theme_blue.layout'')\<rparr>) db1 = Inr db2
     \<and> map theme_id (views db1) = [None, Some 7]
     \<and> map theme_id (views db2) = [None, Some 7, Some 7]
     \<and> map id_v (views db2) = [1, 2, 3]"
  by (simp add: theme_ctx_def themed_def store_def template_def read_def write_body_def
      currently_updating_def get_theme_specific_view_def write_view_def truthy_def
      super_write_def apply_vals_def no_vals_def search_def order_by_def leaf_holds_def
      field_value_def m2o_def copy_def Let_def)

section \<open>Copy on unlink during a theme update\<close>

text \<open>
  Claim C2 fails on the code while a theme module is updated. \<^verbatim>\<open>unlink\<close> is called on the
  generic template 1 in the context of website 1; website 2 resolves the template's key
  before the call. The renaming \<^verbatim>\<open>write\<close> for website 2 clears the current website as it
  does for every write of a theme update, so it renames the generic template in place and
  creates no fork; the deletion then removes the renamed template, and website 2 resolves
  neither the key nor the renamed key.
\<close>

theorem unlink_during_theme_update_forks_nothing:
  "ctx_website_id (theme_ctx 1) = Some (Some 1) \<and> \<not> no_cow (theme_ctx 1)
   \<and> get_view_id (website_ctx 2) solo (\<lambda>s. Inl ValueError) (XStr ''website.layout'') = Inr 1
   \<and> (\<exists>db'. unlink 3 (theme_ctx 1) [1] solo = Inr db' \<and> views db' = []
         \<and> get_view_id (website_ctx 2) db' (\<lambda>s. Inl ValueError) (XStr ''website.layout'')
             = Inl ValueError
         \<and> get_view_id (website_ctx 2) db' (\<lambda>s. Inl ValueError)
             (XStr (rename_key (Some ''website.layout'') 2)) = Inl ValueError)"
proof -
  have u: "unlink 3 (theme_ctx 1) [1] solo = Inr (solo\<lparr>views := []\<rparr>)"
    by (simp add: unlink_def theme_ctx_def solo_def store_def template_def read_def write_body_def
      currently_updating_def get_theme_specific_view_def write_view_def truthy_def
      super_write_def apply_vals_def no_vals_def search_def order_by_def leaf_holds_def
      field_value_def context_get_website_id_def super_unlink_def Let_def numeral_3_eq_3)
  have g0: "get_view_id (website_ctx 2) solo (\<lambda>s. Inl ValueError) (XStr ''website.layout'') = Inr 1"
    by (simp add: get_view_id_def website_ctx_def website_theme_ids_def browse_website_def
        context_get_website_id_def truthy_def solo_def store_def search_def order_by_def
        get_view_id_domain_def expression_AND_def expression_OR_def website_domain_def
        leaf_holds_def field_value_def m2o_def template_def)
  have g1: "get_view_id (website_ctx 2) (solo\<lparr>views := []\<rparr>) (\<lambda>s. Inl ValueError) (XStr s) = Inl ValueError" for s
    by (simp add: get_view_id_def website_ctx_def website_theme_ids_def browse_website_def
        context_get_website_id_def truthy_def solo_def store_def search_def order_by_def)
  show ?thesis using u g0 g1 by (simp add: theme_ctx_def)
qed

end
